theory Spec2Isabelle
  imports Complex_Main
begin

section \<open>Floating-point scalars\<close>

text \<open>
  The arrays of \<^verbatim>\<open>reservoir.py\<close> hold float64 numbers. They are modelled as the reals
  extended by the three special values of IEEE arithmetic, without rounding and without a
  signed zero. What matters for the program is kept: no arithmetic operation raises, a
  division by zero gives an infinity or NaN, and NaN spreads through every operation.
\<close>

datatype fl = Fin real | PInf | NInf | NaN

fun fl_neg :: "fl \<Rightarrow> fl" where
  "fl_neg (Fin a) = Fin (- a)"
| "fl_neg PInf = NInf"
| "fl_neg NInf = PInf"
| "fl_neg NaN = NaN"

fun fl_inf :: "bool \<Rightarrow> fl" where
  "fl_inf True = PInf"
| "fl_inf False = NInf"

instantiation fl :: "{plus,minus,times,inverse,ord}"
begin

fun plus_fl :: "fl \<Rightarrow> fl \<Rightarrow> fl" where
  "plus_fl NaN _ = NaN"
| "plus_fl _ NaN = NaN"
| "plus_fl (Fin a) (Fin b) = Fin (a + b)"
| "plus_fl PInf NInf = NaN"
| "plus_fl NInf PInf = NaN"
| "plus_fl PInf _ = PInf"
| "plus_fl _ PInf = PInf"
| "plus_fl NInf _ = NInf"
| "plus_fl _ NInf = NInf"

definition minus_fl :: "fl \<Rightarrow> fl \<Rightarrow> fl" where
  "minus_fl a b = a + fl_neg b"

fun times_fl :: "fl \<Rightarrow> fl \<Rightarrow> fl" where
  "times_fl NaN _ = NaN"
| "times_fl _ NaN = NaN"
| "times_fl (Fin a) (Fin b) = Fin (a * b)"
| "times_fl (Fin a) PInf = (if a = 0 then NaN else fl_inf (0 < a))"
| "times_fl (Fin a) NInf = (if a = 0 then NaN else fl_inf (a < 0))"
| "times_fl PInf (Fin b) = (if b = 0 then NaN else fl_inf (0 < b))"
| "times_fl NInf (Fin b) = (if b = 0 then NaN else fl_inf (b < 0))"
| "times_fl PInf PInf = PInf"
| "times_fl NInf NInf = PInf"
| "times_fl PInf NInf = NInf"
| "times_fl NInf PInf = NInf"

fun divide_fl :: "fl \<Rightarrow> fl \<Rightarrow> fl" where
  "divide_fl NaN _ = NaN"
| "divide_fl _ NaN = NaN"
| "divide_fl (Fin a) (Fin b) =
     (if b = 0 then (if a = 0 then NaN else fl_inf (0 < a)) else Fin (a / b))"
| "divide_fl (Fin a) _ = Fin 0"
| "divide_fl PInf (Fin b) = fl_inf (0 \<le> b)"
| "divide_fl NInf (Fin b) = fl_inf (b < 0)"
| "divide_fl _ _ = NaN"

definition inverse_fl :: "fl \<Rightarrow> fl" where
  "inverse_fl a = divide (Fin 1) a"

fun less_fl :: "fl \<Rightarrow> fl \<Rightarrow> bool" where
  "less_fl NaN _ = False"
| "less_fl _ NaN = False"
| "less_fl (Fin a) (Fin b) = (a < b)"
| "less_fl _ NInf = False"
| "less_fl PInf _ = False"
| "less_fl _ _ = True"

definition less_eq_fl :: "fl \<Rightarrow> fl \<Rightarrow> bool" where
  "less_eq_fl a b = (a < b \<or> (a = b \<and> a \<noteq> NaN))"

instance ..

end

fun fl_tanh :: "fl \<Rightarrow> fl" where
  "fl_tanh (Fin a) = Fin (tanh a)"
| "fl_tanh PInf = Fin 1"
| "fl_tanh NInf = Fin (- 1)"
| "fl_tanh NaN = NaN"

fun is_finite :: "fl \<Rightarrow> bool" where
  "is_finite (Fin _) = True"
| "is_finite _ = False"


section \<open>numpy arrays\<close>

text \<open>
  A 1-D array is a list, a 2-D array a list of rows. The embedding is exact for arrays
  without an axis of length zero, and for the empty 1-D array; a list of rows cannot
  carry the column count of a matrix that has no row. Arrays of rank three and more do
  not occur in the program.
\<close>

type_synonym vec = "fl list"
type_synonym mat = "fl list list"

datatype ndarray = Scalar fl | Vec vec | Mat mat

text \<open>
  \<^verbatim>\<open>self.input\<close> and \<^verbatim>\<open>self.output\<close> hold the Python number \<^verbatim>\<open>0\<close> after
  \<^verbatim>\<open>__init__\<close> and a 1-D array afterwards: a row of the loaded series or the result of
  \<^verbatim>\<open>np.dot\<close> with the 1-D internal state.
\<close>

datatype signal = Num fl | Arr vec

text \<open>The exceptions that the program and the numpy calls it makes can raise.\<close>

datatype error = ValueError | IndexError | LinAlgError

definition dot :: "vec \<Rightarrow> vec \<Rightarrow> fl" where
  "dot a b = foldl (+) (Fin 0) (map2 (*) a b)"

definition np_T :: "mat \<Rightarrow> mat" where
  "np_T m = (case m of [] \<Rightarrow> [] | r # _ \<Rightarrow> map (\<lambda>j. map (\<lambda>row. row ! j) m) [0..<length r])"

definition mat_mul :: "mat \<Rightarrow> mat \<Rightarrow> mat" where
  "mat_mul a b = map (\<lambda>row. map (dot row) (np_T b)) a"

definition mat_vec :: "mat \<Rightarrow> vec \<Rightarrow> vec" where
  "mat_vec a v = map (\<lambda>row. dot row v) a"

text \<open>
  The operator \<^verbatim>\<open>@\<close> (\<^verbatim>\<open>np.matmul\<close>): it refuses a 0-d operand and operands whose inner
  dimensions differ, with ValueError.
\<close>

fun np_matmul :: "ndarray \<Rightarrow> ndarray \<Rightarrow> error + ndarray" where
  "np_matmul (Scalar _) _ = Inl ValueError"
| "np_matmul _ (Scalar _) = Inl ValueError"
| "np_matmul (Vec a) (Vec b) =
     (if length a = length b then Inr (Scalar (dot a b)) else Inl ValueError)"
| "np_matmul (Vec a) (Mat b) =
     (if length a = length b then Inr (Vec (map (dot a) (np_T b))) else Inl ValueError)"
| "np_matmul (Mat a) (Vec b) =
     (if \<forall>row \<in> set a. length row = length b then Inr (Vec (mat_vec a b))
      else Inl ValueError)"
| "np_matmul (Mat a) (Mat b) =
     (if \<forall>row \<in> set a. length row = length b then Inr (Mat (mat_mul a b))
      else Inl ValueError)"

text \<open>\<^verbatim>\<open>np.dot\<close> of an array and a 1-D array: a 0-d first operand scales the second.\<close>

fun np_dot :: "ndarray \<Rightarrow> vec \<Rightarrow> error + signal" where
  "np_dot (Scalar c) v = Inr (Arr (map (\<lambda>x. c * x) v))"
| "np_dot (Vec a) v = (if length a = length v then Inr (Num (dot a v)) else Inl ValueError)"
| "np_dot (Mat a) v =
     (if \<forall>row \<in> set a. length row = length v then Inr (Arr (mat_vec a v))
      else Inl ValueError)"

text \<open>
  Elementwise addition with broadcasting: two axes fit when they are equally long or one
  of them has length one.
\<close>

definition add1 :: "vec \<Rightarrow> vec \<Rightarrow> error + vec" where
  "add1 a b =
     (if length a = length b then Inr (map2 (+) a b)
      else if length a = 1 then Inr (map (\<lambda>y. hd a + y) b)
      else if length b = 1 then Inr (map (\<lambda>x. x + hd b) a)
      else Inl ValueError)"

fun rows_of :: "(error + vec) list \<Rightarrow> error + mat" where
  "rows_of [] = Inr []"
| "rows_of (Inl e # _) = Inl e"
| "rows_of (Inr v # rs) = (case rows_of rs of Inl e \<Rightarrow> Inl e | Inr vs \<Rightarrow> Inr (v # vs))"

definition add2 :: "mat \<Rightarrow> mat \<Rightarrow> error + mat" where
  "add2 a b =
     (if length a = length b then rows_of (map2 add1 a b)
      else if length a = 1 then rows_of (map (add1 (hd a)) b)
      else if length b = 1 then rows_of (map (\<lambda>row. add1 row (hd b)) a)
      else Inl ValueError)"

fun np_add :: "ndarray \<Rightarrow> ndarray \<Rightarrow> error + ndarray" where
  "np_add (Scalar a) (Scalar b) = Inr (Scalar (a + b))"
| "np_add (Scalar a) (Vec b) = Inr (Vec (map (\<lambda>y. a + y) b))"
| "np_add (Scalar a) (Mat b) = Inr (Mat (map (map (\<lambda>y. a + y)) b))"
| "np_add (Vec a) (Scalar b) = Inr (Vec (map (\<lambda>x. x + b) a))"
| "np_add (Vec a) (Vec b) = map_sum id Vec (add1 a b)"
| "np_add (Vec a) (Mat b) = map_sum id Mat (add2 [a] b)"
| "np_add (Mat a) (Scalar b) = Inr (Mat (map (map (\<lambda>x. x + b)) a))"
| "np_add (Mat a) (Vec b) = map_sum id Mat (add2 a [b])"
| "np_add (Mat a) (Mat b) = map_sum id Mat (add2 a b)"

definition np_eye :: "nat \<Rightarrow> mat" where
  "np_eye n = map (\<lambda>i. map (\<lambda>j. if i = j then Fin 1 else Fin 0) [0..<n]) [0..<n]"

definition scale :: "fl \<Rightarrow> vec \<Rightarrow> vec" where
  "scale c v = map (\<lambda>x. c * x) v"

text \<open>
  \<^verbatim>\<open>np.array\<close> of a Python list, as \<^verbatim>\<open>np.transpose\<close> builds it from the two traces: the
  empty list gives the empty 1-D array, numbers give a 1-D array, equally long 1-D arrays
  give a matrix with one row for each of them, and anything else is refused.
\<close>

definition array_of_vecs :: "vec list \<Rightarrow> error + ndarray" where
  "array_of_vecs xs =
     (case xs of [] \<Rightarrow> Inr (Vec [])
      | x # _ \<Rightarrow> if \<forall>y \<in> set xs. length y = length x then Inr (Mat xs) else Inl ValueError)"

fun the_nums :: "signal list \<Rightarrow> vec option" where
  "the_nums [] = Some []"
| "the_nums (Num a # ss) = map_option ((#) a) (the_nums ss)"
| "the_nums (Arr _ # _) = None"

fun the_arrs :: "signal list \<Rightarrow> vec list option" where
  "the_arrs [] = Some []"
| "the_arrs (Arr v # ss) = map_option ((#) v) (the_arrs ss)"
| "the_arrs (Num _ # _) = None"

definition array_of_signals :: "signal list \<Rightarrow> error + ndarray" where
  "array_of_signals ss =
     (case the_nums ss of Some v \<Rightarrow> Inr (Vec v)
      | None \<Rightarrow> (case the_arrs ss of Some vs \<Rightarrow> array_of_vecs vs | None \<Rightarrow> Inl ValueError))"

text \<open>The attribute \<^verbatim>\<open>.T\<close> and \<^verbatim>\<open>np.transpose\<close> leave arrays of rank below two as they are.\<close>

fun transpose_nd :: "ndarray \<Rightarrow> ndarray" where
  "transpose_nd (Mat m) = Mat (np_T m)"
| "transpose_nd a = a"

text \<open>
  \<^verbatim>\<open>np.linalg.inv\<close> wants a square matrix. The inversion itself is LAPACK's and is a
  parameter \<open>linalg_inv\<close> of the model: it returns a matrix or raises LinAlgError.
\<close>

fun np_linalg_inv :: "(mat \<Rightarrow> error + mat) \<Rightarrow> ndarray \<Rightarrow> error + ndarray" where
  "np_linalg_inv linalg_inv (Mat m) =
     (if \<forall>row \<in> set m. length row = length m then map_sum id Mat (linalg_inv m)
      else Inl LinAlgError)"
| "np_linalg_inv linalg_inv _ = Inl LinAlgError"


section \<open>The reservoir\<close>

text \<open>
  The fields of a \<^verbatim>\<open>Reservoir\<close> object. The only array the program writes in place is
  the one \<^verbatim>\<open>self.internal\<close> names, and the state trace keeps references to such arrays.
  So these arrays live in a store, a list indexed by address, and \<open>internal\<close> is an
  address; an allocation appends to the store. Every other array is never written after
  it is built and is held as a value.
\<close>

record reservoir =
  radius :: fl
  leak :: fl
  warmup :: nat
  dim_N_x :: nat
  dim_N_y :: nat
  dim_N_u :: nat
  weight_in :: mat
  weight_out :: ndarray
  weight :: mat
  input :: signal
  "output" :: signal
  internal :: nat
  store :: "vec list"

text \<open>
  The array \<^verbatim>\<open>self.internal\<close> names. A reference of the program always names an array
  that exists; the statements below are about objects with \<open>internal r < length (store r)\<close>.
\<close>

definition deref :: "reservoir \<Rightarrow> vec" where
  "deref r = store r ! internal r"

subsection \<open>Construction\<close>

text \<open>
  The results of the five calls of \<^verbatim>\<open>np.random.uniform\<close> are inputs of the model, and so
  is the eigenvalue routine: \<open>eigvals_abs w\<close> stands for
  \<^verbatim>\<open>np.abs(np.linalg.eigvals(w))\<close>, the magnitudes of the eigenvalues of \<open>w\<close>. On the
  square matrix of finite numbers that the draws give, LAPACK returns one eigenvalue for
  each row; that its iteration may fail to converge is not modelled.
\<close>

record draws =
  draw_weight_in :: mat
  draw_weight_out :: mat
  draw_weight :: mat
  draw_mask :: mat
  draw_internal :: vec

text \<open>\<^verbatim>\<open>np.max\<close> refuses an empty array and returns NaN when it meets one.\<close>

fun np_max :: "vec \<Rightarrow> error + fl" where
  "np_max [] = Inl ValueError"
| "np_max (x # xs) =
     Inr (foldl (\<lambda>m y. if m = NaN \<or> y = NaN then NaN else if m < y then y else m) x xs)"

text \<open>
  Line 87: the mask is the array of comparisons \<^verbatim>\<open>uniform(0, 1) < 1\<close>, and the product
  with it keeps an entry where the comparison holds and puts zero elsewhere.
\<close>

definition masked_weight :: "draws \<Rightarrow> mat" where
  "masked_weight dr =
     map2 (map2 (\<lambda>a m. a * (if m < Fin 1 then Fin 1 else Fin 0)))
       (draw_weight dr) (draw_mask dr)"

definition init :: "(mat \<Rightarrow> vec) \<Rightarrow> draws \<Rightarrow> nat \<Rightarrow> nat \<Rightarrow> nat \<Rightarrow> error + reservoir" where
  "init eigvals_abs dr dim_x dim_y dim_u =
     (if dim_y \<noteq> dim_u then Inl ValueError
      else
        case np_max (eigvals_abs (masked_weight dr)) of
          Inl e \<Rightarrow> Inl e
        | Inr lam \<Rightarrow>
            Inr \<lparr>radius = Fin (5 / 4), leak = Fin (1 / 2), warmup = 100,
                 dim_N_x = dim_x, dim_N_y = dim_y, dim_N_u = dim_u,
                 weight_in = draw_weight_in dr,
                 weight_out = Mat (draw_weight_out dr),
                 weight = map (map (\<lambda>a. a * (Fin (5 / 4) / lam))) (masked_weight dr),
                 input = Num (Fin 0), output = Num (Fin 0),
                 internal = 0, store = [draw_internal dr]\<rparr>)"

subsection \<open>One step of the dynamics\<close>

definition forward_input :: "reservoir \<Rightarrow> error + vec" where
  "forward_input r =
     (case input r of
        Num _ \<Rightarrow> Inl ValueError
      | Arr u \<Rightarrow>
          if \<forall>row \<in> set (weight_in r). length row = length u
          then Inr (mat_vec (weight_in r) u) else Inl ValueError)"

definition forward_internal :: "reservoir \<Rightarrow> error + vec" where
  "forward_internal r =
     (if \<forall>row \<in> set (weight r). length row = length (deref r)
      then Inr (mat_vec (weight r) (deref r)) else Inl ValueError)"

definition forward :: "reservoir \<Rightarrow> error + vec" where
  "forward r =
     (case forward_input r of
        Inl e \<Rightarrow> Inl e
      | Inr a \<Rightarrow>
          (case forward_internal r of
             Inl e \<Rightarrow> Inl e
           | Inr b \<Rightarrow> map_sum id (map fl_tanh) (add1 a b)))"

definition forward_out :: "reservoir \<Rightarrow> error + signal" where
  "forward_out r = np_dot (weight_out r) (deref r)"

text \<open>
  Line 205 and line 221, the same statement: the right-hand side is a new array, and the
  assignment makes \<^verbatim>\<open>self.internal\<close> name it. The arrays named before stay as they are.
\<close>

definition leaky_step :: "reservoir \<Rightarrow> error + reservoir" where
  "leaky_step r =
     (case forward r of
        Inl e \<Rightarrow> Inl e
      | Inr f \<Rightarrow>
          (case add1 (scale (Fin 1 - leak r) (deref r)) (scale (leak r) f) of
             Inl e \<Rightarrow> Inl e
           | Inr x \<Rightarrow> Inr (r\<lparr>store := store r @ [x], internal := length (store r)\<rparr>)))"

text \<open>Line 206 and line 222: \<^verbatim>\<open>self.internal[0] = 1\<close> writes into the array in place.\<close>

definition set_bias :: "reservoir \<Rightarrow> error + reservoir" where
  "set_bias r =
     (if deref r = [] then Inl IndexError
      else Inr (r\<lparr>store := (store r)[internal r := (deref r)[0 := Fin 1]]\<rparr>))"

text \<open>
  The two statements together, as both loops run them: the outcome and the object as it
  is afterwards.
\<close>

definition state_step :: "reservoir \<Rightarrow> (error + unit) \<times> reservoir" where
  "state_step r =
     (case leaky_step r of
        Inl e \<Rightarrow> (Inl e, r)
      | Inr r1 \<Rightarrow>
          (case set_bias r1 of
             Inl e \<Rightarrow> (Inl e, r1)
           | Inr r2 \<Rightarrow> (Inr (), r2)))"

subsection \<open>The readout fit\<close>

definition update :: "(mat \<Rightarrow> error + mat) \<Rightarrow> nat \<Rightarrow> vec list \<Rightarrow> signal list \<Rightarrow> error + ndarray" where
  "update linalg_inv dim_x xs ys =
     (case array_of_vecs xs of Inl e \<Rightarrow> Inl e | Inr x0 \<Rightarrow>
      case array_of_signals ys of Inl e \<Rightarrow> Inl e | Inr y0 \<Rightarrow>
      let x = transpose_nd x0; y = transpose_nd y0 in
      case np_matmul y (transpose_nd x) of Inl e \<Rightarrow> Inl e | Inr yx \<Rightarrow>
      case np_matmul x (transpose_nd x) of Inl e \<Rightarrow> Inl e | Inr xx \<Rightarrow>
      case np_add xx (Mat (map (scale (Fin (1 / 10 ^ 8))) (np_eye dim_x))) of
        Inl e \<Rightarrow> Inl e | Inr g \<Rightarrow>
      case np_linalg_inv linalg_inv g of Inl e \<Rightarrow> Inl e | Inr gi \<Rightarrow>
      np_matmul yx gi)"


subsection \<open>The driver\<close>

text \<open>
  A \<^verbatim>\<open>for\<close> loop over a range: the body runs for each index in turn, on the state the
  previous run left; an exception ends the loop and leaves the state as it is then.
\<close>

fun for_range :: "(nat \<Rightarrow> 's \<Rightarrow> (error + unit) \<times> 's) \<Rightarrow> nat list \<Rightarrow> 's \<Rightarrow> (error + unit) \<times> 's" where
  "for_range body [] s = (Inr (), s)"
| "for_range body (i # is) s =
     (case body i s of
        (Inl e, s') \<Rightarrow> (Inl e, s')
      | (Inr _, s') \<Rightarrow> for_range body is s')"

text \<open>
  \<^verbatim>\<open>train_test_mackey_glass_npy\<close>: the series \<open>data\<close> is what \<^verbatim>\<open>np.load\<close> reads, a 1-D
  array; each sample becomes a row of length one. The lengths \<open>N1\<close> and \<open>N2\<close> are
  natural numbers here: negative arguments, which Python would read as positions from
  the end of the series, are not modelled.
\<close>

definition train_test_mackey_glass_npy :: "vec \<Rightarrow> nat \<Rightarrow> nat \<Rightarrow> vec list \<times> vec list" where
  "train_test_mackey_glass_npy data N1 N2 =
     (map (\<lambda>d. [d]) (take N1 data), map (\<lambda>d. [d]) (take (N2 - N1) (drop N1 data)))"

text \<open>
  Lines 205 to 212, the body of the first loop. The state of the loop is the object, the
  state trace (a list of references) and the target trace.
\<close>

definition train_body ::
  "vec list \<Rightarrow> nat \<Rightarrow> reservoir \<times> nat list \<times> signal list
     \<Rightarrow> (error + unit) \<times> (reservoir \<times> nat list \<times> signal list)" where
  "train_body train i s =
     (case s of (r, reservoir_state, input_signal) \<Rightarrow>
        (case state_step r of
           (Inl e, r') \<Rightarrow> (Inl e, (r', reservoir_state, input_signal))
         | (Inr _, r2) \<Rightarrow>
             let rs = (if warmup r2 \<le> i then reservoir_state @ [internal r2]
                       else reservoir_state);
                 us = (if warmup r2 \<le> i then input_signal @ [input r2]
                       else input_signal)
             in if Suc i < length train
                then (Inr (), (r2\<lparr>input := Arr (train ! Suc i)\<rparr>, rs, us))
                else (Inl IndexError, (r2, rs, us))))"

text \<open>Lines 200 to 212.\<close>

definition training ::
  "vec list \<Rightarrow> nat \<Rightarrow> reservoir \<Rightarrow> (error + unit) \<times> (reservoir \<times> nat list \<times> signal list)" where
  "training train n1 r =
     (case train of
        [] \<Rightarrow> (Inl IndexError, (r, [], []))
      | t0 # _ \<Rightarrow> for_range (train_body train) [0..<n1 - 1] (r\<lparr>input := Arr t0\<rparr>, [], []))"

text \<open>The subscript \<^verbatim>\<open>[0]\<close> on what \<^verbatim>\<open>self.output\<close> holds, and on a row of the series.\<close>

fun item0 :: "signal \<Rightarrow> error + fl" where
  "item0 (Num _) = Inl IndexError"
| "item0 (Arr []) = Inl IndexError"
| "item0 (Arr (y # _)) = Inr y"

text \<open>Lines 221 to 228, the body of the second loop.\<close>

definition test_body ::
  "vec list \<Rightarrow> nat \<Rightarrow> reservoir \<times> fl list \<times> fl list
     \<Rightarrow> (error + unit) \<times> (reservoir \<times> fl list \<times> fl list)" where
  "test_body test i s =
     (case s of (r, result, signal) \<Rightarrow>
        (case state_step r of
           (Inl e, r') \<Rightarrow> (Inl e, (r', result, signal))
         | (Inr _, r2) \<Rightarrow>
             (case forward_out r2 of
                Inl e \<Rightarrow> (Inl e, (r2, result, signal))
              | Inr y \<Rightarrow>
                  let r3 = r2\<lparr>output := y\<rparr> in
                  (case item0 y of
                     Inl e \<Rightarrow> (Inl e, (r3, result, signal))
                   | Inr y0 \<Rightarrow>
                       if i < length test
                       then (case item0 (Arr (test ! i)) of
                               Inl e \<Rightarrow> (Inl e, (r3, result @ [y0], signal))
                             | Inr t \<Rightarrow>
                                 (Inr (), (r3\<lparr>input := output r3\<rparr>,
                                           result @ [y0], signal @ [t])))
                       else (Inl IndexError, (r3, result @ [y0], signal))))))"

text \<open>Lines 218 to 230.\<close>

definition testing ::
  "vec list \<Rightarrow> nat \<Rightarrow> nat \<Rightarrow> reservoir \<Rightarrow> (error + fl list \<times> fl list) \<times> reservoir" where
  "testing test n1 n2 r =
     (case test of
        [] \<Rightarrow> (Inl IndexError, r)
      | s0 # _ \<Rightarrow>
          (case for_range (test_body test) [0..<n2 - n1] (r\<lparr>input := Arr s0\<rparr>, [], []) of
             (Inl e, (r', _, _)) \<Rightarrow> (Inl e, r')
           | (Inr _, (r', result, signal)) \<Rightarrow> (Inr (signal, result), r')))"

text \<open>
  Line 215: the fit reads the recorded arrays through their references, as they are in the
  store at that moment.
\<close>

definition fit ::
  "(mat \<Rightarrow> error + mat) \<Rightarrow> reservoir \<Rightarrow> nat list \<Rightarrow> signal list \<Rightarrow> error + reservoir" where
  "fit linalg_inv r reservoir_state input_signal =
     (case update linalg_inv (dim_N_x r) (map (\<lambda>a. store r ! a) reservoir_state) input_signal of
        Inl e \<Rightarrow> Inl e
      | Inr w \<Rightarrow> Inr (r\<lparr>weight_out := w\<rparr>))"

text \<open>
  \<^verbatim>\<open>training_testing\<close>: the result is the pair \<^verbatim>\<open>(signal, result)\<close> or the exception
  raised, together with the object as the call leaves it.
\<close>

definition training_testing ::
  "(mat \<Rightarrow> error + mat) \<Rightarrow> vec \<Rightarrow> nat \<Rightarrow> nat \<Rightarrow> reservoir
     \<Rightarrow> (error + fl list \<times> fl list) \<times> reservoir" where
  "training_testing linalg_inv data n1 n2 r =
     (case train_test_mackey_glass_npy data n1 n2 of (train, test) \<Rightarrow>
        (case training train n1 r of
           (Inl e, (r1, _, _)) \<Rightarrow> (Inl e, r1)
         | (Inr _, (r1, reservoir_state, input_signal)) \<Rightarrow>
             (case fit linalg_inv r1 reservoir_state input_signal of
                Inl e \<Rightarrow> (Inl e, r1)
              | Inr r2 \<Rightarrow> testing test n1 n2 r2)))"


text \<open>Lines 199 to 215 alone: the object after the fit, or the exception raised before.\<close>

definition fitted ::
  "(mat \<Rightarrow> error + mat) \<Rightarrow> vec list \<Rightarrow> nat \<Rightarrow> reservoir \<Rightarrow> error + reservoir" where
  "fitted linalg_inv train n1 r =
     (case training train n1 r of
        (Inl e, _) \<Rightarrow> Inl e
      | (Inr _, (r1, reservoir_state, input_signal)) \<Rightarrow>
          fit linalg_inv r1 reservoir_state input_signal)"

section \<open>Notions used in the statements\<close>

text \<open>
  The shapes \<^verbatim>\<open>__init__\<close> gives to a reservoir that reads a scalar series: the input
  matrix has one column, the recurrent matrix is square, the internal state has one
  entry for each reservoir unit, and \<^verbatim>\<open>self.internal\<close> names an array of the store.
\<close>

definition well_shaped :: "reservoir \<Rightarrow> bool" where
  "well_shaped r \<longleftrightarrow>
     0 < dim_N_x r \<and>
     length (weight_in r) = dim_N_x r \<and> (\<forall>row \<in> set (weight_in r). length row = 1) \<and>
     length (weight r) = dim_N_x r \<and> (\<forall>row \<in> set (weight r). length row = dim_N_x r) \<and>
     internal r < length (store r) \<and> length (deref r) = dim_N_x r"

text \<open>What numpy promises of \<^verbatim>\<open>np.linalg.inv\<close>: the inverse has the shape of its argument.\<close>

definition keeps_shape :: "(mat \<Rightarrow> error + mat) \<Rightarrow> bool" where
  "keeps_shape linalg_inv \<longleftrightarrow>
     (\<forall>m mi. linalg_inv m = Inr mi \<longrightarrow>
        length mi = length m \<and> (\<forall>row \<in> set mi. length row = length m))"

text \<open>
  The state update as the specification words it:
  \<open>x_new = (1 - \<alpha>) \<cdot> x_prev + \<alpha> \<cdot> tanh (W_in \<cdot> u + W \<cdot> x_prev)\<close>.
\<close>

definition leaky_integration :: "fl \<Rightarrow> mat \<Rightarrow> mat \<Rightarrow> vec \<Rightarrow> vec \<Rightarrow> vec" where
  "leaky_integration \<alpha> W_in W u x_prev =
     map2 (+) (scale (Fin 1 - \<alpha>) x_prev)
       (scale \<alpha> (map fl_tanh (map2 (+) (mat_vec W_in u) (mat_vec W x_prev))))"

text \<open>
  The readout as the specification words it: \<open>W_out = (Y X\<^sup>t) (X X\<^sup>t + \<epsilon> I)\<^sup>-\<^sup>1\<close> with
  \<open>\<epsilon> = 1e-8\<close>, for matrices \<open>X\<close> and \<open>Y\<close> that have time along their columns. The inverse
  is the one \<open>linalg_inv\<close> computes.
\<close>

definition ridge_readout :: "(mat \<Rightarrow> error + mat) \<Rightarrow> nat \<Rightarrow> mat \<Rightarrow> mat \<Rightarrow> error + mat" where
  "ridge_readout linalg_inv dim_x X Y =
     (case linalg_inv (map2 (map2 (+)) (mat_mul X (np_T X))
                         (map (scale (Fin (1 / 10 ^ 8))) (np_eye dim_x))) of
        Inl e \<Rightarrow> Inl e
      | Inr gi \<Rightarrow> Inr (mat_mul (mat_mul Y (np_T X)) gi))"



subsection \<open>Closed forms of the two loops\<close>

text \<open>
  For the proofs: the internal state after \<open>k\<close> steps of the first loop, the internal
  state and the input after \<open>j\<close> steps of the second, and the whole state of either loop,
  as functions of the object the loop starts from. The lemmas \<open>for_range_train\<close> and
  \<open>for_range_test\<close> show that the loops of the program compute them.
\<close>

fun train_x :: "reservoir \<Rightarrow> vec \<Rightarrow> nat \<Rightarrow> vec" where
  "train_x r data 0 = deref r"
| "train_x r data (Suc k) =
     (leaky_integration (leak r) (weight_in r) (weight r) [data ! k] (train_x r data k))
       [0 := Fin 1]"

definition train_state :: "reservoir \<Rightarrow> vec \<Rightarrow> nat \<Rightarrow> reservoir \<times> nat list \<times> signal list" where
  "train_state r data k =
     (r\<lparr>input := Arr [data ! k],
        internal := (if k = 0 then internal r else length (store r) + (k - 1)),
        store := store r @ map (\<lambda>i. train_x r data (Suc i)) [0..<k]\<rparr>,
      map (\<lambda>i. length (store r) + i) [warmup r..<k],
      map (\<lambda>i. Arr [data ! i]) [warmup r..<k])"

fun test_xu :: "reservoir \<Rightarrow> mat \<Rightarrow> vec \<Rightarrow> nat \<Rightarrow> vec \<times> vec" where
  "test_xu r W_out u0 0 = (deref r, u0)"
| "test_xu r W_out u0 (Suc j) =
     (case test_xu r W_out u0 j of (x, u) \<Rightarrow>
        let x' = (leaky_integration (leak r) (weight_in r) (weight r) u x)[0 := Fin 1]
        in (x', mat_vec W_out x'))"

definition test_state ::
  "reservoir \<Rightarrow> mat \<Rightarrow> vec list \<Rightarrow> nat \<Rightarrow> reservoir \<times> fl list \<times> fl list" where
  "test_state r W_out test j =
     (r\<lparr>input := Arr (snd (test_xu r W_out (test ! 0) j)),
        output := (if j = 0 then output r else Arr (snd (test_xu r W_out (test ! 0) j))),
        internal := (if j = 0 then internal r else length (store r) + (j - 1)),
        store := store r @ map (\<lambda>i. fst (test_xu r W_out (test ! 0) (Suc i))) [0..<j]\<rparr>,
      map (\<lambda>i. hd (snd (test_xu r W_out (test ! 0) (Suc i)))) [0..<j],
      map (\<lambda>i. hd (test ! i)) [0..<j])"


section \<open>Concrete instances\<close>

text \<open>
  An inverse for matrices with one or two rows, by the adjugate, which refuses a matrix
  whose determinant is zero as \<^verbatim>\<open>np.linalg.inv\<close> refuses a singular one.
\<close>

definition inv_small :: "mat \<Rightarrow> error + mat" where
  "inv_small m =
     (case m of
        [[a]] \<Rightarrow> if a = Fin 0 then Inl LinAlgError else Inr [[Fin 1 / a]]
      | [[a, b], [c, d]] \<Rightarrow>
          let det = a * d - b * c
          in if det = Fin 0 then Inl LinAlgError
             else Inr [[d / det, fl_neg b / det], [fl_neg c / det, a / det]]
      | _ \<Rightarrow> Inl LinAlgError)"

text \<open>
  The reservoir of the scenario in the specification: ten units, radius 1 (a constant
  matrix with entries \<open>1/10\<close> has spectral radius 1), no leak, a warmup of two steps.
\<close>

definition scenario :: reservoir where
  "scenario =
     \<lparr>radius = Fin 1, leak = Fin 1, warmup = 2, dim_N_x = 10, dim_N_y = 1, dim_N_u = 1,
      weight_in = replicate 10 [Fin (1 / 4)],
      weight_out = Mat [replicate 10 (Fin 0)],
      weight = replicate 10 (replicate 10 (Fin (1 / 10))),
      input = Num (Fin 0), output = Num (Fin 0),
      internal = 0, store = [replicate 10 (Fin 0)]\<rparr>"

text \<open>
  A reservoir with a single unit, a series of six samples, and the object that lines
  199 to 215 make of them for \<open>n1 = 4\<close>.
\<close>

definition small :: reservoir where
  "small =
     \<lparr>radius = Fin (5 / 4), leak = Fin (1 / 2), warmup = 1, dim_N_x = 1, dim_N_y = 1, dim_N_u = 1,
      weight_in = [[Fin (3 / 10)]], weight_out = Mat [[Fin (1 / 5)]], weight = [[Fin (5 / 4)]],
      input = Num (Fin 0), output = Num (Fin 0), internal = 0, store = [[Fin (1 / 2)]]\<rparr>"

definition series :: vec where
  "series = [Fin (1 / 10), Fin (1 / 5), Fin (3 / 10), Fin (2 / 5), Fin (1 / 2), Fin (3 / 5)]"

definition small_fitted :: reservoir where
  "small_fitted =
     small\<lparr>input := Arr [Fin (2 / 5)], internal := 3,
           store := [[Fin (1 / 2)], [Fin 1], [Fin 1], [Fin 1]],
           weight_out := Mat [[Fin (50000000 / 200000001)]]\<rparr>"

text \<open>
  The eigenvalue magnitudes of a matrix with a single entry, and draws from which
  \<^verbatim>\<open>__init__\<close> builds the reservoir above (with the default warmup).
\<close>

definition eigvals_abs_1 :: "mat \<Rightarrow> vec" where
  "eigvals_abs_1 w = (case w of [[a]] \<Rightarrow> [if a < Fin 0 then fl_neg a else a] | _ \<Rightarrow> [])"

definition small_draws :: draws where
  "small_draws =
     \<lparr>draw_weight_in = [[Fin (3 / 10)]], draw_weight_out = [[Fin (1 / 5)]],
      draw_weight = [[Fin (2 / 5)]], draw_mask = [[Fin (7 / 10)]],
      draw_internal = [Fin (1 / 2)]\<rparr>"

text \<open>Draws whose recurrent matrix is the zero matrix: its only eigenvalue is zero.\<close>

definition zero_draws :: draws where
  "zero_draws = small_draws\<lparr>draw_weight := [[Fin 0]]\<rparr>"

section \<open>Loops, shapes and the closed form of a run\<close>

lemma for_range_append:
  "for_range body (xs @ ys) s =
     (case for_range body xs s of (Inl e, s') \<Rightarrow> (Inl e, s') | (Inr u, s') \<Rightarrow> for_range body ys s')"
  by (induction xs arbitrary: s) (auto split: prod.splits sum.splits)

lemma for_range_snoc:
  "for_range body [0..<k] s = (Inr (), s') \<Longrightarrow> for_range body [0..<Suc k] s = body k s'"
  by (simp add: for_range_append split: prod.splits sum.splits)

lemma length_mat_vec [simp]: "length (mat_vec a v) = length a"
  by (simp add: mat_vec_def)

lemma length_scale [simp]: "length (scale c v) = length v"
  by (simp add: scale_def)

lemma length_leaky_integration:
  "length W_in = length x \<Longrightarrow> length W = length x \<Longrightarrow> length (leaky_integration a W_in W u x) = length x"
  by (simp add: leaky_integration_def)

lemma leaky_step_shaped:
  assumes "well_shaped r" and "input r = Arr [d]"
  shows "leaky_step r =
    Inr (r\<lparr>store := store r @ [leaky_integration (leak r) (weight_in r) (weight r) [d] (deref r)],
           internal := length (store r)\<rparr>)"
  using assms
  by (simp add: leaky_step_def forward_def forward_input_def forward_internal_def well_shaped_def
      add1_def leaky_integration_def)

lemma set_bias_fresh:
  assumes "x \<noteq> []"
  shows "set_bias (r\<lparr>store := store r @ [x], internal := length (store r)\<rparr>) =
    Inr (r\<lparr>store := store r @ [x[0 := Fin 1]], internal := length (store r)\<rparr>)"
  using assms by (simp add: set_bias_def deref_def)



lemma state_step_shaped:
  assumes "well_shaped r" and "input r = Arr [d]"
  shows "state_step r =
    (Inr (), r\<lparr>store := store r @ [(leaky_integration (leak r) (weight_in r) (weight r) [d] (deref r))[0 := Fin 1]],
           internal := length (store r)\<rparr>)"
proof -
  have "leaky_integration (leak r) (weight_in r) (weight r) [d] (deref r) \<noteq> []"
    using assms(1) length_leaky_integration [of "weight_in r" "deref r" "weight r" "leak r" "[d]"]
    by (auto simp add: well_shaped_def)
  from set_bias_fresh [OF this, of r] leaky_step_shaped [OF assms]
  show ?thesis by (simp add: state_step_def)
qed

lemma length_train_x:
  "well_shaped r \<Longrightarrow> length (train_x r dat k) = dim_N_x r"
  by (induction k) (simp_all add: well_shaped_def length_leaky_integration)

lemma deref_train_state:
  "well_shaped r \<Longrightarrow> deref (fst (train_state r dat k)) = train_x r dat k"
  by (cases k) (simp_all add: train_state_def deref_def well_shaped_def nth_append)

lemma well_shaped_train_state:
  "well_shaped r \<Longrightarrow> well_shaped (fst (train_state r dat k))"
  using deref_train_state [of r dat k] length_train_x [of r dat k]
  by (auto simp add: well_shaped_def train_state_def)

lemma train_body_train_state:
  assumes "well_shaped r" and "Suc k < length dat"
  shows "train_body (map (\<lambda>d. [d]) dat) k (train_state r dat k) =
    (Inr (), train_state r dat (Suc k))"
proof -
  define rk where "rk = fst (train_state r dat k)"
  have ws: "well_shaped rk" unfolding rk_def by (rule well_shaped_train_state [OF assms(1)])
  have inp: "input rk = Arr [dat ! k]" by (simp add: train_state_def rk_def)
  have x: "deref rk = train_x r dat k" unfolding rk_def by (rule deref_train_state [OF assms(1)])
  have ts: "train_state r dat k = (rk, map (\<lambda>i. length (store r) + i) [warmup r..<k],
      map (\<lambda>i. Arr [dat ! i]) [warmup r..<k])"
    by (simp add: rk_def train_state_def)
  have flds: "warmup rk = warmup r" "leak rk = leak r" "weight_in rk = weight_in r" "weight rk = weight r"
    "store rk = store r @ map (\<lambda>i. train_x r dat (Suc i)) [0..<k]"
    by (simp_all add: rk_def train_state_def)
  have st: "state_step rk = (Inr (), rk\<lparr>store := store rk @ [train_x r dat (Suc k)], internal := length (store rk)\<rparr>)"
    using state_step_shaped [OF ws inp] by (simp add: x flds)
  have "train_body (map (\<lambda>d. [d]) dat) k (train_state r dat k) =
     (Inr (), (rk\<lparr>store := store rk @ [train_x r dat (Suc k)], internal := length (store rk), input := Arr [dat ! Suc k]\<rparr>,
        map (\<lambda>i. length (store r) + i) [warmup r..<Suc k], map (\<lambda>i. Arr [dat ! i]) [warmup r..<Suc k]))"
    using assms(2) by (simp add: ts train_body_def st flds(1,5) inp del: train_x.simps)
  also have "\<dots> = (Inr (), train_state r dat (Suc k))"
    by (simp add: train_state_def rk_def del: train_x.simps)
  finally show ?thesis .
qed
lemma for_range_train:
  assumes "well_shaped r" and "k < length dat"
  shows "for_range (train_body (map (\<lambda>d. [d]) dat)) [0..<k] (r\<lparr>input := Arr [dat ! 0]\<rparr>, [], []) =
    (Inr (), train_state r dat k)"
  using assms(2)
proof (induction k)
  case 0
  then show ?case by (simp add: train_state_def)
next
  case (Suc k)
  then have "for_range (train_body (map (\<lambda>d. [d]) dat)) [0..<k] (r\<lparr>input := Arr [dat ! 0]\<rparr>, [], []) =
    (Inr (), train_state r dat k)" by simp
  from for_range_snoc [OF this] train_body_train_state [OF assms(1) Suc.prems]
  show ?case by simp
qed

lemma training_closed:
  assumes "well_shaped r" and "0 < n1" and "n1 \<le> length dat"
  shows "training (map (\<lambda>d. [d]) (take n1 dat)) n1 r = (Inr (), train_state r (take n1 dat) (n1 - 1))"
proof -
  obtain d ds where t: "take n1 dat = d # ds" using assms(2,3) by (cases "take n1 dat") auto
  have l: "n1 - 1 < length (take n1 dat)" using assms(2,3) by simp
  have "(take n1 dat) ! 0 = d" using t by simp
  with for_range_train [OF assms(1) l] show ?thesis
    by (simp add: training_def t)
qed


lemma item0_Arr: "v \<noteq> [] \<Longrightarrow> item0 (Arr v) = Inr (hd v)"
  by (cases v) simp_all

lemma length_test_xu:
  assumes "well_shaped r" and "length W_out = 1" and "length u0 = 1"
  shows "length (fst (test_xu r W_out u0 j)) = dim_N_x r \<and> length (snd (test_xu r W_out u0 j)) = 1"
  using assms
  by (induction j) (auto simp add: well_shaped_def length_leaky_integration Let_def split: prod.splits)

lemma deref_test_state:
  "well_shaped r \<Longrightarrow> deref (fst (test_state r W_out test j)) = fst (test_xu r W_out (test ! 0) j)"
  by (cases j) (simp_all add: test_state_def deref_def well_shaped_def nth_append del: test_xu.simps(2))

lemma well_shaped_test_state:
  assumes "well_shaped r" and "length W_out = 1" and "length (test ! 0) = 1"
  shows "well_shaped (fst (test_state r W_out test j))"
  using deref_test_state [OF assms(1), of W_out test j] length_test_xu [OF assms, of j] assms(1)
  by (auto simp add: well_shaped_def test_state_def simp del: test_xu.simps(2))

lemma test_body_test_state:
  assumes "well_shaped r" and "weight_out r = Mat W_out" and "length W_out = 1"
    and "\<forall>row \<in> set W_out. length row = dim_N_x r" and "j < length tdat"
  shows "test_body (map (\<lambda>d. [d]) tdat) j (test_state r W_out (map (\<lambda>d. [d]) tdat) j) =
    (Inr (), test_state r W_out (map (\<lambda>d. [d]) tdat) (Suc j))"
proof -
  let ?test = "map (\<lambda>d. [d]) tdat"
  define rj where "rj = fst (test_state r W_out ?test j)"
  define x u where "x = fst (test_xu r W_out (?test ! 0) j)" and "u = snd (test_xu r W_out (?test ! 0) j)"
  define x' where "x' = (leaky_integration (leak r) (weight_in r) (weight r) u x)[0 := Fin 1]"
  have t0: "length (?test ! 0) = 1" using assms(5) by (cases tdat) auto
  have ws: "well_shaped rj" unfolding rj_def by (rule well_shaped_test_state [OF assms(1,3) t0])
  have len: "length x = dim_N_x r" "length u = 1"
    using length_test_xu [OF assms(1,3) t0, of j] by (simp_all add: x_def u_def)
  then obtain d where u: "u = [d]" by (cases u) auto
  have inp: "input rj = Arr [d]" using u by (simp add: test_state_def rj_def u_def)
  have dx: "deref rj = x" unfolding rj_def x_def by (rule deref_test_state [OF assms(1)])
  have nxt: "test_xu r W_out (?test ! 0) (Suc j) = (x', mat_vec W_out x')"
    by (simp add: x'_def x_def u_def Let_def split: prod.splits)
  have lx': "length x' = dim_N_x r"
    using len assms(1) by (simp add: x'_def length_leaky_integration well_shaped_def)
  have ts: "test_state r W_out ?test j = (rj, map (\<lambda>i. hd (snd (test_xu r W_out (?test ! 0) (Suc i)))) [0..<j],
      map (\<lambda>i. hd (?test ! i)) [0..<j])"
    by (simp add: rj_def test_state_def)
  have flds: "leak rj = leak r" "weight_in rj = weight_in r" "weight rj = weight r" "weight_out rj = Mat W_out"
    "store rj = store r @ map (\<lambda>i. fst (test_xu r W_out (?test ! 0) (Suc i))) [0..<j]"
    using assms(2) by (simp_all add: rj_def test_state_def del: test_xu.simps(2))
  define r2 where "r2 = rj\<lparr>store := store rj @ [x'], internal := length (store rj)\<rparr>"
  have st: "state_step rj = (Inr (), r2)"
    using state_step_shaped [OF ws inp] by (simp add: dx flds x'_def u r2_def)
  have fo: "forward_out r2 = Inr (Arr (mat_vec W_out x'))"
    using assms(4) lx' by (simp add: forward_out_def r2_def flds(4) deref_def)
  have i0: "item0 (Arr (mat_vec W_out x')) = Inr (hd (mat_vec W_out x'))"
    using assms(3) by (intro item0_Arr) (auto simp add: mat_vec_def)
  have "test_body ?test j (test_state r W_out ?test j) =
     (Inr (), (r2\<lparr>output := Arr (mat_vec W_out x'), input := Arr (mat_vec W_out x')\<rparr>,
        map (\<lambda>i. hd (snd (test_xu r W_out (?test ! 0) (Suc i)))) [0..<j] @ [hd (mat_vec W_out x')],
        map (\<lambda>i. hd (?test ! i)) [0..<j] @ [tdat ! j]))"
    using assms(5) by (simp add: ts test_body_def st fo i0 del: test_xu.simps(2))
  also have "\<dots> = (Inr (), test_state r W_out ?test (Suc j))"
    using assms(5) by (simp add: test_state_def [of _ _ _ "Suc j"] nxt r2_def rj_def test_state_def [of _ _ _ j] del: test_xu.simps(2))
  finally show ?thesis .
qed

lemma for_range_test:
  assumes "well_shaped r" and "weight_out r = Mat W_out" and "length W_out = 1"
    and "\<forall>row \<in> set W_out. length row = dim_N_x r" and "j \<le> length tdat" and "tdat \<noteq> []"
  shows "for_range (test_body (map (\<lambda>d. [d]) tdat)) [0..<j] (r\<lparr>input := Arr [tdat ! 0]\<rparr>, [], []) =
    (Inr (), test_state r W_out (map (\<lambda>d. [d]) tdat) j)"
  using assms(5)
proof (induction j)
  case 0
  then show ?case using assms(6) by (simp add: test_state_def)
next
  case (Suc j)
  then have "for_range (test_body (map (\<lambda>d. [d]) tdat)) [0..<j] (r\<lparr>input := Arr [tdat ! 0]\<rparr>, [], []) =
    (Inr (), test_state r W_out (map (\<lambda>d. [d]) tdat) j)" by simp
  from for_range_snoc [OF this] test_body_test_state [OF assms(1-4), of j tdat] Suc.prems
  show ?case by simp
qed


lemma length_np_T: "m \<noteq> [] \<Longrightarrow> length (np_T m) = length (hd m)"
  by (cases m) (simp_all add: np_T_def)

lemma rows_np_T: "row \<in> set (np_T m) \<Longrightarrow> length row = length m"
  by (cases m) (auto simp add: np_T_def)

lemma length_mat_mul [simp]: "length (mat_mul a b) = length a"
  by (simp add: mat_mul_def)

lemma rows_mat_mul: "row \<in> set (mat_mul a b) \<Longrightarrow> length row = length (np_T b)"
  by (auto simp add: mat_mul_def)

lemma rows_of_add1:
  "length a = length b \<Longrightarrow> \<forall>i < length a. length (a ! i) = length (b ! i) \<Longrightarrow>
   rows_of (map2 add1 a b) = Inr (map2 (map2 (+)) a b)"
proof (induction a arbitrary: b)
  case Nil
  then show ?case by simp
next
  case (Cons x a)
  then obtain y b' where b: "b = y # b'" by (cases b) auto
  from Cons.prems(2) b have "length x = length y" by auto
  moreover from Cons.prems b have "rows_of (map2 add1 a b') = Inr (map2 (map2 (+)) a b')"
    by (intro Cons.IH) auto
  ultimately show ?case by (simp add: b add1_def)
qed

lemma length_np_eye [simp]: "length (np_eye n) = n"
  by (simp add: np_eye_def)

lemma rows_np_eye: "row \<in> set (np_eye n) \<Longrightarrow> length row = n"
  by (auto simp add: np_eye_def)

lemma nth_np_eye_length [simp]: "i < n \<Longrightarrow> length (np_eye n ! i) = n"
  by (simp add: np_eye_def)

lemma the_nums_Arr: "ts \<noteq> [] \<Longrightarrow> the_nums (map Arr ts) = None"
  by (cases ts) simp_all

lemma the_arrs_Arr: "the_arrs (map Arr ts) = Some ts"
  by (induction ts) simp_all

lemma update_ridge:
  assumes ks: "keeps_shape linalg_inv"
    and ne: "xs \<noteq> []" and xl: "\<forall>x \<in> set xs. length x = dim_x" and d: "0 < dim_x"
    and tl: "length ts = length xs" and tm: "\<forall>t \<in> set ts. length t = m"
  shows "update linalg_inv dim_x xs (map Arr ts) =
    map_sum id Mat (ridge_readout linalg_inv dim_x (np_T xs) (np_T ts))"
proof -
  define X Y where "X = np_T xs" and "Y = np_T ts"
  define G where "G = map2 (map2 (+)) (mat_mul X (np_T X)) (map (scale (Fin (1 / 10 ^ 8))) (np_eye dim_x))"
  have tne: "ts \<noteq> []" using tl ne by auto
  have ax: "array_of_vecs xs = Inr (Mat xs)"
    using ne xl by (cases xs) (auto simp add: array_of_vecs_def)
  have ay: "array_of_signals (map Arr ts) = Inr (Mat ts)"
    using tne tm by (cases ts) (auto simp add: array_of_signals_def the_arrs_Arr array_of_vecs_def)
  have lX: "length X = dim_x" using ne xl by (simp add: X_def length_np_T)
  have rX: "\<forall>row \<in> set X. length row = length xs" by (auto simp add: X_def dest: rows_np_T)
  have Xne: "X \<noteq> []" using lX d by auto
  then have hX: "length (hd X) = length xs" using rX by (cases X) auto
  have lXt: "length (np_T X) = length xs" using Xne hX by (simp add: length_np_T)
  have rY: "\<forall>row \<in> set Y. length row = length xs" using tl by (auto simp add: Y_def dest: rows_np_T)
  have m1: "np_matmul (Mat Y) (Mat (np_T X)) = Inr (Mat (mat_mul Y (np_T X)))"
    using rY lXt by simp
  have m2: "np_matmul (Mat X) (Mat (np_T X)) = Inr (Mat (mat_mul X (np_T X)))"
    using rX lXt by simp
  have Xtne: "np_T X \<noteq> []" using lXt ne by auto
  have lXtt: "length (np_T (np_T X)) = dim_x"
  proof -
    have "hd (np_T X) \<in> set (np_T X)" using Xtne by simp
    then have "length (hd (np_T X)) = length X" by (rule rows_np_T)
    then show ?thesis using Xtne lX by (simp add: length_np_T)
  qed
  have rXX: "\<forall>row \<in> set (mat_mul X (np_T X)). length row = dim_x"
    using lXtt by (auto dest: rows_mat_mul)
  have ad: "add2 (mat_mul X (np_T X)) (map (scale (Fin (1 / 10 ^ 8))) (np_eye dim_x)) = Inr G"
  proof -
    have "rows_of (map2 add1 (mat_mul X (np_T X)) (map (scale (Fin (1 / 10 ^ 8))) (np_eye dim_x))) = Inr G"
      unfolding G_def using lX rXX by (intro rows_of_add1) (auto simp add: rows_np_eye)
    then show ?thesis using lX by (simp add: add2_def)
  qed
  have lG: "length G = dim_x" using lX by (simp add: G_def)
  have rG: "\<forall>row \<in> set G. length row = dim_x"
    using rXX lX by (auto simp add: G_def set_zip rows_np_eye)
  have sq: "\<forall>row \<in> set G. length row = length G" using lG rG by simp
  have li: "np_linalg_inv linalg_inv (Mat G) = map_sum id Mat (linalg_inv G)"
    using sq by simp
  have up: "update linalg_inv dim_x xs (map Arr ts) =
      (case map_sum id Mat (linalg_inv G) of Inl e \<Rightarrow> Inl e
       | Inr gi \<Rightarrow> np_matmul (Mat (mat_mul Y (np_T X))) gi)"
    by (simp only: update_def ax ay sum.case Let_def transpose_nd.simps X_def [symmetric]
        Y_def [symmetric] m1 m2 np_add.simps ad map_sum.simps id_apply li)
  have rr: "ridge_readout linalg_inv dim_x X Y =
      (case linalg_inv G of Inl e \<Rightarrow> Inl e | Inr gi \<Rightarrow> Inr (mat_mul (mat_mul Y (np_T X)) gi))"
    by (simp only: ridge_readout_def G_def)
  show ?thesis
  proof (cases "linalg_inv G")
    case (Inl e)
    then show ?thesis by (simp add: up rr X_def [symmetric] Y_def [symmetric])
  next
    case (Inr gi)
    with ks lG have lgi: "length gi = dim_x" by (auto simp add: keeps_shape_def)
    have "\<forall>row \<in> set (mat_mul Y (np_T X)). length row = length gi"
      using lXtt lgi by (auto dest: rows_mat_mul)
    then show ?thesis by (simp add: up rr X_def [symmetric] Y_def [symmetric] Inr)
  qed
qed


lemma keeps_shape_inv_small: "keeps_shape inv_small"
  by (auto simp add: keeps_shape_def inv_small_def Let_def split: list.splits if_splits)

lemma train_rows: "fst (train_test_mackey_glass_npy data n1 n2) = map (\<lambda>d. [d]) (take n1 data)"
  by (simp add: train_test_mackey_glass_npy_def)

lemma training_prefix:
  assumes "well_shaped r" and "0 < k" and "k \<le> length dat"
  shows "training (map (\<lambda>d. [d]) dat) k r = (Inr (), train_state r dat (k - 1))"
proof -
  obtain d ds where t: "dat = d # ds" using assms(2,3) by (cases dat) auto
  have l: "k - 1 < length dat" using assms(2,3) by simp
  from for_range_train [OF assms(1) l] show ?thesis
    by (simp add: training_def t)
qed

lemma train_x_bias: "well_shaped r \<Longrightarrow> train_x r dat (Suc k) ! 0 = Fin 1"
  using length_train_x [of r dat "Suc k"] by (simp add: well_shaped_def del: length_0_conv)

lemma fl_zero_add [simp]: "Fin 0 + y = y"
  by (cases y) simp_all

lemma update_empty:
  "update linalg_inv dim_x [] [] =
     (case linalg_inv (map (scale (Fin (1 / 10 ^ 8))) (np_eye dim_x)) of
        Inl e \<Rightarrow> Inl e | Inr gi \<Rightarrow> Inl ValueError)"
proof -
  define E where "E = map (scale (Fin (1 / 10 ^ 8))) (np_eye dim_x)"
  have sq: "\<forall>row \<in> set E. length row = length E"
    by (auto simp add: E_def rows_np_eye)
  have idm: "map (map (\<lambda>y. Fin 0 + y)) m = m" for m :: mat
    by (induction m) (simp_all add: map_idI)
  have a: "np_add (Scalar (Fin 0)) (Mat E) = Inr (Mat E)"
    by (simp add: idm)
  have li: "np_linalg_inv linalg_inv (Mat E) = map_sum id Mat (linalg_inv E)"
    using sq by simp
  have ax: "array_of_vecs [] = Inr (Vec [])" by (simp add: array_of_vecs_def)
  have ay: "array_of_signals [] = Inr (Vec [])" by (simp add: array_of_signals_def)
  have mm: "np_matmul (Vec []) (Vec []) = Inr (Scalar (Fin 0))" by (simp add: dot_def)
  have "update linalg_inv dim_x [] [] =
      (case map_sum id Mat (linalg_inv E) of Inl e \<Rightarrow> Inl e
       | Inr gi \<Rightarrow> np_matmul (Scalar (Fin 0)) gi)"
    by (simp only: update_def ax ay sum.case Let_def transpose_nd.simps mm
        E_def [symmetric] a li)
  then show ?thesis
    by (cases "linalg_inv E") (simp_all add: E_def)
qed

lemma test_rows:
  "snd (train_test_mackey_glass_npy data n1 n2) = map (\<lambda>d. [d]) (take (n2 - n1) (drop n1 data))"
  by (simp add: train_test_mackey_glass_npy_def)

lemma ridge_readout_shape:
  assumes ks: "keeps_shape linalg_inv"
    and ne: "xs \<noteq> []" and xl: "\<forall>x \<in> set xs. length x = dim_x" and d: "0 < dim_x"
    and tne: "ts \<noteq> []" and tm: "\<forall>t \<in> set ts. length t = m"
    and rr: "ridge_readout linalg_inv dim_x (np_T xs) (np_T ts) = Inr W"
  shows "length W = m \<and> (\<forall>row \<in> set W. length row = dim_x)"
proof -
  define G where "G = map2 (map2 (+)) (mat_mul (np_T xs) (np_T (np_T xs)))
    (map (scale (Fin (1 / 10 ^ 8))) (np_eye dim_x))"
  from rr obtain gi where gi: "linalg_inv G = Inr gi"
    and W: "W = mat_mul (mat_mul (np_T ts) (np_T (np_T xs))) gi"
    by (auto simp add: ridge_readout_def G_def split: sum.splits)
  have "length (np_T xs) = dim_x" using ne xl by (simp add: length_np_T)
  then have "length G = dim_x" by (simp add: G_def)
  with ks gi have lgi: "length gi = dim_x" and rgi: "\<forall>row \<in> set gi. length row = dim_x"
    by (auto simp add: keeps_shape_def)
  from lgi d have "gi \<noteq> []" by auto
  then have "length (np_T gi) = dim_x" using rgi by (simp add: length_np_T)
  then have "\<forall>row \<in> set W. length row = dim_x" by (auto simp add: W dest: rows_mat_mul)
  moreover have "length W = m" using tne tm by (simp add: W length_np_T)
  ultimately show ?thesis by simp
qed

lemma fitted_shape:
  assumes ws: "well_shaped r" and ks: "keeps_shape linalg_inv" and len: "length dat = n1"
    and f: "fitted linalg_inv (map (\<lambda>d. [d]) dat) n1 r = Inr r2"
  shows "\<exists>W. r2 = (fst (train_state r dat (n1 - 1)))\<lparr>weight_out := Mat W\<rparr> \<and>
    length W = 1 \<and> (\<forall>row \<in> set W. length row = dim_N_x r)"
proof -
  have pos: "0 < n1"
  proof (rule ccontr)
    assume "\<not> 0 < n1"
    with len have "dat = []" by simp
    with f show False by (simp add: fitted_def training_def)
  qed
  define k where "k = n1 - 1"
  define xs where "xs = map (\<lambda>i. train_x r dat (Suc i)) [warmup r..<k]"
  define ts where "ts = map (\<lambda>i. [dat ! i]) [warmup r..<k]"
  define r1 where "r1 = fst (train_state r dat k)"
  have tr: "training (map (\<lambda>d. [d]) dat) n1 r = (Inr (), train_state r dat k)"
    using ws pos len by (simp add: training_prefix k_def)
  have st: "train_state r dat k =
      (r1, map (\<lambda>i. length (store r) + i) [warmup r..<k], map Arr ts)"
    by (simp add: train_state_def r1_def ts_def comp_def)
  have rd: "map (\<lambda>a. store r1 ! a) (map (\<lambda>i. length (store r) + i) [warmup r..<k]) = xs"
    by (simp add: r1_def xs_def train_state_def nth_append del: train_x.simps)
  have d1: "dim_N_x r1 = dim_N_x r" by (simp add: r1_def train_state_def)
  have "fitted linalg_inv (map (\<lambda>d. [d]) dat) n1 r =
      (case update linalg_inv (dim_N_x r) xs (map Arr ts) of
         Inl e \<Rightarrow> Inl e | Inr w \<Rightarrow> Inr (r1\<lparr>weight_out := w\<rparr>))"
    by (simp only: fitted_def tr st prod.case sum.case fit_def rd d1)
  with f have up: "update linalg_inv (dim_N_x r) xs (map Arr ts) = Inr (weight_out r2)"
    and r2: "r2 = r1\<lparr>weight_out := weight_out r2\<rparr>"
    by (auto split: sum.splits)
  have ne: "xs \<noteq> []"
  proof
    assume "xs = []"
    then have "ts = []" by (simp add: xs_def ts_def)
    with up \<open>xs = []\<close> show False by (simp add: update_empty split: sum.splits)
  qed
  then have tne: "ts \<noteq> []" by (simp add: xs_def ts_def)
  have xl: "\<forall>x \<in> set xs. length x = dim_N_x r"
    using ws by (auto simp add: xs_def length_train_x simp del: train_x.simps)
  have d: "0 < dim_N_x r" using ws by (simp add: well_shaped_def)
  have tl: "length ts = length xs" by (simp add: xs_def ts_def)
  have tm: "\<forall>t \<in> set ts. length t = 1" by (auto simp add: ts_def)
  from up update_ridge [OF ks ne xl d tl tm]
  obtain W where W: "weight_out r2 = Mat W"
    and rr: "ridge_readout linalg_inv (dim_N_x r) (np_T xs) (np_T ts) = Inr W"
    by (cases "ridge_readout linalg_inv (dim_N_x r) (np_T xs) (np_T ts)") (auto dest: sym)
  from ridge_readout_shape [OF ks ne xl d tne tm rr] r2 W show ?thesis
    by (auto simp add: r1_def k_def)
qed

lemma testing_prefix:
  assumes "well_shaped r" and "weight_out r = Mat W" and "length W = 1"
    and "\<forall>row \<in> set W. length row = dim_N_x r" and "tdat \<noteq> []" and "j \<le> length tdat"
  shows "testing (map (\<lambda>d. [d]) tdat) n1 (n1 + j) r =
    (case test_state r W (map (\<lambda>d. [d]) tdat) j of
       (r', result, signal) \<Rightarrow> (Inr (signal, result), r'))"
proof -
  obtain d ds where t: "tdat = d # ds" using assms(5) by (cases tdat) auto
  from for_range_test [OF assms(1-4,6,5)] show ?thesis
    by (simp add: testing_def t split: prod.splits)
qed

lemma training_testing_fitted:
  assumes "fitted linalg_inv (fst (train_test_mackey_glass_npy data n1 n2)) n1 r = Inr r2"
  shows "training_testing linalg_inv data n1 n2 r =
    testing (snd (train_test_mackey_glass_npy data n1 n2)) n1 n2 r2"
  using assms
  by (auto simp add: training_testing_def fitted_def split: prod.splits sum.splits)

lemma well_shaped_weight_out [simp]: "well_shaped (r\<lparr>weight_out := w\<rparr>) = well_shaped r"
  by (simp add: well_shaped_def deref_def)

lemma singleton_hd: "length v = 1 \<Longrightarrow> v = [hd v]"
  by (cases v) auto

lemma test_xu_output:
  "snd (test_xu r W u0 (Suc j)) = mat_vec W (fst (test_xu r W u0 (Suc j)))"
  by (simp add: Let_def split: prod.splits)

lemma test_state_facts:
  assumes ws: "well_shaped r" and wo: "weight_out r = Mat W" and lw: "length W = 1"
    and rw: "\<forall>row \<in> set W. length row = dim_N_x r" and ne: "tdat \<noteq> []"
  shows "input (fst (test_state r W (map (\<lambda>d. [d]) tdat) 0)) = Arr [tdat ! 0]"
    and "input (fst (test_state r W (map (\<lambda>d. [d]) tdat) (Suc j))) =
           Arr [hd (snd (test_xu r W [tdat ! 0] (Suc j)))]"
    and "output (fst (test_state r W (map (\<lambda>d. [d]) tdat) (Suc j))) =
           Arr [hd (snd (test_xu r W [tdat ! 0] (Suc j)))]"
    and "forward_out (fst (test_state r W (map (\<lambda>d. [d]) tdat) (Suc j))) =
           Inr (Arr [hd (snd (test_xu r W [tdat ! 0] (Suc j)))])"
    and "deref (fst (test_state r W (map (\<lambda>d. [d]) tdat) j)) = fst (test_xu r W [tdat ! 0] j)"
proof -
  let ?test = "map (\<lambda>d. [d]) tdat"
  have t0: "?test ! 0 = [tdat ! 0]" using ne by (cases tdat) auto
  have l: "length (fst (test_xu r W [tdat ! 0] k)) = dim_N_x r"
    "length (snd (test_xu r W [tdat ! 0] k)) = 1" for k
    using length_test_xu [OF ws lw, of "[tdat ! 0]" k] by simp_all
  have s: "snd (test_xu r W [tdat ! 0] k) = [hd (snd (test_xu r W [tdat ! 0] k))]" for k
    by (rule singleton_hd [OF l(2)])
  show "input (fst (test_state r W ?test 0)) = Arr [tdat ! 0]"
    by (simp add: test_state_def t0)
  show "input (fst (test_state r W ?test (Suc j))) = Arr [hd (snd (test_xu r W [tdat ! 0] (Suc j)))]"
    using s [of "Suc j"] by (simp add: test_state_def t0 del: test_xu.simps)
  show "output (fst (test_state r W ?test (Suc j))) = Arr [hd (snd (test_xu r W [tdat ! 0] (Suc j)))]"
    using s [of "Suc j"] by (simp add: test_state_def t0 del: test_xu.simps)
  show d: "deref (fst (test_state r W ?test j)) = fst (test_xu r W [tdat ! 0] j)"
    using deref_test_state [OF ws, of W ?test j] by (simp add: t0)
  have d': "deref (fst (test_state r W ?test (Suc j))) = fst (test_xu r W [tdat ! 0] (Suc j))"
    using deref_test_state [OF ws, of W ?test "Suc j"] by (simp only: t0)
  have "weight_out (fst (test_state r W ?test (Suc j))) = Mat W"
    using wo by (simp add: test_state_def del: test_xu.simps)
  then have "forward_out (fst (test_state r W ?test (Suc j))) =
      Inr (Arr (mat_vec W (fst (test_xu r W [tdat ! 0] (Suc j)))))"
    using rw l(1) [of "Suc j"] by (simp add: forward_out_def d' del: test_xu.simps)
  then show "forward_out (fst (test_state r W ?test (Suc j))) =
      Inr (Arr [hd (snd (test_xu r W [tdat ! 0] (Suc j)))])"
    using s [of "Suc j"] by (simp only: test_xu_output [symmetric])
qed


lemma fitted_context:
  assumes ws: "well_shaped r" and ks: "keeps_shape linalg_inv" and len: "n1 \<le> length data"
    and f: "fitted linalg_inv (fst (train_test_mackey_glass_npy data n1 n2)) n1 r = Inr r2"
  shows "\<exists>W. well_shaped r2 \<and> weight_out r2 = Mat W \<and> length W = 1 \<and>
    (\<forall>row \<in> set W. length row = dim_N_x r2) \<and>
    leak r2 = leak r \<and> weight_in r2 = weight_in r \<and> weight r2 = weight r"
proof -
  have l: "length (take n1 data) = n1" using len by simp
  from fitted_shape [OF ws ks l] f obtain W where
    r2: "r2 = (fst (train_state r (take n1 data) (n1 - 1)))\<lparr>weight_out := Mat W\<rparr>"
    and W: "length W = 1" "\<forall>row \<in> set W. length row = dim_N_x r"
    by (auto simp add: train_rows)
  have "well_shaped r2" using well_shaped_train_state [OF ws] by (simp add: r2)
  moreover have "dim_N_x r2 = dim_N_x r" "leak r2 = leak r" "weight_in r2 = weight_in r"
    "weight r2 = weight r" "weight_out r2 = Mat W"
    by (simp_all add: r2 train_state_def)
  ultimately show ?thesis using W by simp
qed

lemma well_shaped_small: "well_shaped small"
  by (simp add: well_shaped_def small_def deref_def)

lemma fitted_small:
  "fitted inv_small (fst (train_test_mackey_glass_npy series 4 6)) 4 small = Inr small_fitted"
  by (simp add: fitted_def training_def train_test_mackey_glass_npy_def series_def small_def
      small_fitted_def train_body_def state_step_def leaky_step_def set_bias_def forward_def
      forward_input_def forward_internal_def deref_def add1_def scale_def mat_vec_def dot_def
      fit_def update_def array_of_vecs_def array_of_signals_def np_T_def np_eye_def mat_mul_def
      add2_def minus_fl_def inv_small_def eval_nat_numeral)

lemma leaky_step_deref:
  assumes "well_shaped r" and "input r = Arr [d]"
  shows "map_sum id deref (leaky_step r) =
    Inr (leaky_integration (leak r) (weight_in r) (weight r) [d] (deref r))"
  by (simp add: leaky_step_shaped [OF assms] deref_def)

lemma init_leak: "init eigvals_abs dr dim_x dim_y dim_u = Inr r0 \<Longrightarrow> leak r0 = Fin (1 / 2)"
  by (auto simp add: init_def split: if_splits sum.splits)

lemma test_xu_bias:
  assumes "well_shaped r" and "length W = 1" and "length u0 = 1"
  shows "fst (test_xu r W u0 (Suc j)) ! 0 = Fin 1"
proof -
  obtain x u where xu: "test_xu r W u0 j = (x, u)" by (cases "test_xu r W u0 j")
  with length_test_xu [OF assms, of j] have "length x = dim_N_x r" by simp
  then have "leaky_integration (leak r) (weight_in r) (weight r) u x \<noteq> []"
    using assms(1) length_leaky_integration [of "weight_in r" x "weight r" "leak r" u]
    by (auto simp add: well_shaped_def)
  then show ?thesis by (simp add: xu Let_def)
qed

lemma init_small: "init eigvals_abs_1 small_draws 1 1 1 = Inr (small\<lparr>warmup := 100\<rparr>)"
  by (simp add: init_def masked_weight_def eigvals_abs_1_def small_draws_def small_def)

lemma series_facts: "(0::nat) < 4" "4 \<le> length series" "6 \<le> length series"
  by (simp_all add: series_def)

lemma testing_no_rows: "testing [] n1 n2 r = (Inl IndexError, r)"
  by (simp add: testing_def)

lemma training_testing_short:
  assumes ws: "well_shaped r" and pos: "0 < n1" and len: "n1 \<le> length data"
    and short: "n1 \<le> Suc (warmup r)"
  shows "training (fst (train_test_mackey_glass_npy data n1 n2)) n1 r =
      (Inr (), fst (train_state r (take n1 data) (n1 - 1)), [], [])"
    and "training_testing linalg_inv data n1 n2 r =
      ((case linalg_inv (map (scale (Fin (1 / 10 ^ 8))) (np_eye (dim_N_x r))) of
          Inl e \<Rightarrow> Inl e | Inr gi \<Rightarrow> Inl ValueError),
       fst (train_state r (take n1 data) (n1 - 1)))"
proof -
  define k where "k = n1 - 1"
  define r1 where "r1 = fst (train_state r (take n1 data) k)"
  have e: "[warmup r..<k] = []" using short by (simp add: k_def)
  have "training (fst (train_test_mackey_glass_npy data n1 n2)) n1 r =
      (Inr (), train_state r (take n1 data) k)"
    using ws pos len by (simp add: train_rows training_prefix k_def)
  moreover have "train_state r (take n1 data) k = (r1, [], [])"
    by (simp add: train_state_def r1_def e)
  ultimately have tr: "training (fst (train_test_mackey_glass_npy data n1 n2)) n1 r =
      (Inr (), r1, [], [])" by simp
  then show "training (fst (train_test_mackey_glass_npy data n1 n2)) n1 r =
      (Inr (), fst (train_state r (take n1 data) (n1 - 1)), [], [])"
    by (simp only: r1_def k_def)
  have d: "dim_N_x r1 = dim_N_x r" by (simp add: r1_def train_state_def)
  have "fit linalg_inv r1 [] [] =
      (case linalg_inv (map (scale (Fin (1 / 10 ^ 8))) (np_eye (dim_N_x r))) of
         Inl e \<Rightarrow> Inl e | Inr gi \<Rightarrow> Inl ValueError)"
    by (cases "linalg_inv (map (scale (Fin (1 / 10 ^ 8))) (np_eye (dim_N_x r)))")
      (simp_all add: fit_def update_empty d)
  then have "training_testing linalg_inv data n1 n2 r =
      ((case linalg_inv (map (scale (Fin (1 / 10 ^ 8))) (np_eye (dim_N_x r))) of
          Inl e \<Rightarrow> Inl e | Inr gi \<Rightarrow> Inl ValueError), r1)"
    by (cases "linalg_inv (map (scale (Fin (1 / 10 ^ 8))) (np_eye (dim_N_x r)))")
      (simp_all add: training_testing_def split_def tr)
  then show "training_testing linalg_inv data n1 n2 r =
      ((case linalg_inv (map (scale (Fin (1 / 10 ^ 8))) (np_eye (dim_N_x r))) of
          Inl e \<Rightarrow> Inl e | Inr gi \<Rightarrow> Inl ValueError),
       fst (train_state r (take n1 data) (n1 - 1)))"
    by (simp only: r1_def k_def)
qed

lemma well_shaped_warmup [simp]: "well_shaped (r\<lparr>warmup := w\<rparr>) = well_shaped r"
  by (simp add: well_shaped_def deref_def)

lemma inv_small_eps:
  "inv_small (map (scale (Fin (1 / 10 ^ 8))) (np_eye 1)) = Inr [[Fin 100000000]]"
  by (simp add: inv_small_def np_eye_def scale_def)

lemma short_series_facts:
  "well_shaped (small\<lparr>warmup := 100\<rparr>)" "(0::nat) < 50"
  "50 \<le> length (replicate 60 (Fin (1 / 2)))" "50 \<le> warmup (small\<lparr>warmup := 100\<rparr>)"
  "50 \<le> Suc (warmup (small\<lparr>warmup := 100\<rparr>))"
  "dim_N_x (small\<lparr>warmup := 100\<rparr>) = 1"
  "weight_out (small\<lparr>warmup := 100\<rparr>) = Mat [[Fin (1 / 5)]]"
  by (simp_all add: well_shaped_small) (simp_all add: small_def)

lemma fl_inf_not_finite: "\<not> is_finite (fl_inf b)"
  by (cases b) simp_all

lemma times_PInf_not_finite: "\<not> is_finite (a * PInf)"
  by (cases a) (simp_all add: fl_inf_not_finite)

lemma train_state_step_deref:
  assumes "well_shaped r"
  shows "deref (fst (train_state r dat (Suc k))) =
    (leaky_integration (leak r) (weight_in r) (weight r) [dat ! k]
       (deref (fst (train_state r dat k))))[0 := Fin 1]"
  using deref_train_state [OF assms, of dat "Suc k"] deref_train_state [OF assms, of dat k]
  by simp

lemma test_state_step_deref:
  assumes "well_shaped r"
  shows "deref (fst (test_state r W test (Suc j))) =
    (leaky_integration (leak r) (weight_in r) (weight r) (snd (test_xu r W (test ! 0) j))
       (deref (fst (test_state r W test j))))[0 := Fin 1]"
  using deref_test_state [OF assms, of W test "Suc j"] deref_test_state [OF assms, of W test j]
  by (simp add: Let_def split: prod.splits)








lemma well_shaped_scenario: "well_shaped scenario"
  by (simp add: well_shaped_def scenario_def deref_def)

section \<open>The readout fit\<close>

text \<open>
  C3. For a non-empty state trace whose rows have length \<open>dim_x\<close> and a target trace with
  as many samples, \<^verbatim>\<open>update\<close> returns exactly \<open>(Y X\<^sup>t) (X X\<^sup>t + \<epsilon> I)\<^sup>-\<^sup>1\<close>, where \<open>X\<close> and
  \<open>Y\<close> are the transposed traces, \<open>\<epsilon> = 1e-8\<close> and \<open>I\<close> is the identity of size \<open>dim_x\<close>;
  it raises what the inversion raises.
\<close>

theorem update_is_ridge_readout:
  assumes "keeps_shape linalg_inv"
    and "xs \<noteq> []" and "\<forall>x \<in> set xs. length x = dim_x" and "0 < dim_x"
    and "length ts = length xs" and "\<forall>t \<in> set ts. length t = m"
  shows "update linalg_inv dim_x xs (map Arr ts) =
    map_sum id Mat (ridge_readout linalg_inv dim_x (np_T xs) (np_T ts))"
  using assms by (rule update_ridge)

theorem update_is_ridge_readout_witness:
  "keeps_shape inv_small \<and>
   update inv_small 2 [[Fin 1, Fin (1 / 2)], [Fin 1, Fin (1 / 4)]]
     (map Arr [[Fin (1 / 5)], [Fin (3 / 10)]]) =
   map_sum id Mat (ridge_readout inv_small 2
     (np_T [[Fin 1, Fin (1 / 2)], [Fin 1, Fin (1 / 4)]]) (np_T [[Fin (1 / 5)], [Fin (3 / 10)]]))"
proof -
  have h: "[[Fin 1, Fin (1 / 2)], [Fin 1, Fin (1 / 4)]] \<noteq> []"
    "\<forall>x \<in> set [[Fin 1, Fin (1 / 2)], [Fin 1, Fin (1 / 4)]]. length x = 2"
    "0 < (2::nat)"
    "length [[Fin (1 / 5)], [Fin (3 / 10)]] = length [[Fin 1, Fin (1 / 2)], [Fin 1, Fin (1 / 4)]]"
    "\<forall>t \<in> set [[Fin (1 / 5)], [Fin (3 / 10)]]. length t = 1"
    by simp_all
  show ?thesis
    using keeps_shape_inv_small update_is_ridge_readout [OF keeps_shape_inv_small h] by simp
qed


section \<open>The state trace\<close>

text \<open>
  C1. On a well-shaped reservoir and a series of at least \<open>n1 \<ge> 1\<close> samples the first loop
  ends normally, and the state trace it leaves has \<open>n1 - 1 - warmup\<close> entries (the loop
  runs over \<^verbatim>\<open>range(n1-1)\<close>), each naming an array of length \<open>dim_N_x\<close> whose first
  element is 1. The specification counts \<open>n1 - warmup\<close> entries; the instance below is
  its scenario, with seven rows where it expects eight.
\<close>

theorem recorded_trace_rows:
  assumes "well_shaped r" and "0 < n1" and "n1 \<le> length data"
  shows "case training (fst (train_test_mackey_glass_npy data n1 n2)) n1 r of
           (out, r1, reservoir_state, input_signal) \<Rightarrow>
             out = Inr () \<and> length reservoir_state = n1 - 1 - warmup r \<and>
             (\<forall>a \<in> set reservoir_state.
                length (store r1 ! a) = dim_N_x r \<and> store r1 ! a ! 0 = Fin 1)"
proof -
  have "training (fst (train_test_mackey_glass_npy data n1 n2)) n1 r =
      (Inr (), train_state r (take n1 data) (n1 - 1))"
    using assms by (simp add: train_rows training_prefix)
  then show ?thesis
    using assms(1)
    by (auto simp add: train_state_def nth_append length_train_x train_x_bias simp del: train_x.simps)
qed


theorem recorded_trace_rows_witness:
  "length (fst (snd (snd (training
      (fst (train_test_mackey_glass_npy (replicate 15 (Fin (1 / 2))) 10 15)) 10 scenario)))) = 7"
  using recorded_trace_rows [OF well_shaped_scenario, of 10 "replicate 15 (Fin (1 / 2))" 15]
  by (simp add: scenario_def split: prod.splits)


text \<open>
  C10. Every entry of the state trace is a snapshot: read through its reference when the
  loop has ended, the \<open>i\<close>-th recorded array is the internal state as it was right after
  recording step \<open>i\<close> (the step with index \<open>warmup + i\<close>). Each step makes
  \<^verbatim>\<open>self.internal\<close> name a new array, beyond all addresses in use, and leaves every
  array that existed before the step as it was.
\<close>

theorem recorded_states_are_snapshots:
  assumes "well_shaped r" and "0 < n1" and "n1 \<le> length data"
  shows "case training (fst (train_test_mackey_glass_npy data n1 n2)) n1 r of
           (out, r1, reservoir_state, input_signal) \<Rightarrow>
             out = Inr () \<and>
             (\<forall>i < length reservoir_state.
                store r1 ! (reservoir_state ! i) =
                deref (fst (snd (training (fst (train_test_mackey_glass_npy data n1 n2))
                                   (warmup r + i + 2) r)))) \<and>
             (\<forall>k < n1 - 1.
                case (snd (training (fst (train_test_mackey_glass_npy data n1 n2)) (Suc k) r),
                      snd (training (fst (train_test_mackey_glass_npy data n1 n2)) (Suc (Suc k)) r)) of
                  ((rk, _, _), (rk', _, _)) \<Rightarrow>
                    internal rk' = length (store rk) \<and>
                    take (length (store rk)) (store rk') = store rk)"
proof -
  let ?dat = "take n1 data"
  have len: "length ?dat = n1" using assms(3) by simp
  have pre: "training (fst (train_test_mackey_glass_npy data n1 n2)) k r =
      (Inr (), train_state r ?dat (k - 1))" if "0 < k" "k \<le> n1" for k
    using that assms(1) len by (simp add: train_rows training_prefix)
  have a: "store (fst (train_state r ?dat (n1 - 1))) ! (fst (snd (train_state r ?dat (n1 - 1))) ! i) =
      deref (fst (snd (training (fst (train_test_mackey_glass_npy data n1 n2)) (warmup r + i + 2) r)))"
    if "i < length (fst (snd (train_state r ?dat (n1 - 1))))" for i
  proof -
    from that have i: "warmup r + i < n1 - 1" by (simp add: train_state_def)
    then have "warmup r + i + 2 \<le> n1" by simp
    then have "deref (fst (snd (training (fst (train_test_mackey_glass_npy data n1 n2)) (warmup r + i + 2) r))) =
        train_x r ?dat (Suc (warmup r + i))"
      using pre [of "warmup r + i + 2"] deref_train_state [OF assms(1), of ?dat "Suc (warmup r + i)"] by simp
    moreover have "store (fst (train_state r ?dat (n1 - 1))) ! (fst (snd (train_state r ?dat (n1 - 1))) ! i) =
        train_x r ?dat (Suc (warmup r + i))"
      using i by (simp add: train_state_def nth_append del: train_x.simps)
    ultimately show ?thesis by simp
  qed
  have b: "internal (fst (train_state r ?dat (Suc k))) = length (store (fst (train_state r ?dat k))) \<and>
      take (length (store (fst (train_state r ?dat k)))) (store (fst (train_state r ?dat (Suc k)))) =
        store (fst (train_state r ?dat k))" for k
    by (simp add: train_state_def del: train_x.simps)
  show ?thesis
    using pre [of n1] assms(2) a
    apply (simp add: split_def del: train_x.simps)
    apply (intro allI impI)
    subgoal for k using pre [of "Suc k"] pre [of "Suc (Suc k)"] b [of k] by simp
    done
qed



theorem recorded_states_are_snapshots_witness:
  "case training (fst (train_test_mackey_glass_npy (replicate 15 (Fin (1 / 2))) 10 15)) 10 scenario of
     (out, r1, reservoir_state, input_signal) \<Rightarrow>
       out = Inr () \<and>
       store r1 ! (reservoir_state ! 0) =
         deref (fst (snd (training
           (fst (train_test_mackey_glass_npy (replicate 15 (Fin (1 / 2))) 10 15)) 4 scenario)))"
proof -
  let ?T = "fst (train_test_mackey_glass_npy (replicate 15 (Fin (1 / 2))) 10 15)"
  obtain out r1 rs us where t: "training ?T 10 scenario = (out, r1, rs, us)"
    by (cases "training ?T 10 scenario") auto
  have "training ?T 10 scenario = (Inr (), train_state scenario (take 10 (replicate 15 (Fin (1 / 2)))) (10 - 1))"
    by (simp only: train_rows) (rule training_prefix [OF well_shaped_scenario], simp_all)
  with t have len: "0 < length rs" by (simp add: train_state_def scenario_def)
  have w: "warmup scenario + 0 + 2 = 4" by (simp add: scenario_def)
  from recorded_states_are_snapshots [OF well_shaped_scenario, of 10 "replicate 15 (Fin (1 / 2))" 15]
  have out: "out = Inr ()"
    and "\<forall>i < length rs. store r1 ! (rs ! i) =
      deref (fst (snd (training ?T (warmup scenario + i + 2) scenario)))"
    by (simp_all add: t)
  then have "store r1 ! (rs ! 0) = deref (fst (snd (training ?T (warmup scenario + 0 + 2) scenario)))"
    using len by blast
  then have "store r1 ! (rs ! 0) = deref (fst (snd (training ?T 4 scenario)))"
    by (simp only: w)
  with out show ?thesis by (simp add: t)
qed



section \<open>The autonomous test phase\<close>






section \<open>The state update\<close>

text \<open>
  C5. In every step of the first loop and in every step of the second, the statement
  that updates the internal state makes it
  \<open>(1 - \<alpha>) \<cdot> x_prev + \<alpha> \<cdot> tanh (W_in \<cdot> u + W \<cdot> x_prev)\<close>, where \<open>u\<close> is the current input
  and \<open>\<alpha>\<close>, \<open>W_in\<close>, \<open>W\<close> are the leak rate and the weights of the object; the
  pre-activation has no bias term. The internal state the loop has after the step is
  that vector with its first component set to 1, and the step leaves the leak rate and
  the two weight matrices as they were. \<^verbatim>\<open>__init__\<close> sets the leak rate to 0.5.
\<close>

theorem state_update_formula:
  assumes "well_shaped r" and "keeps_shape linalg_inv" and "0 < n1" and "n1 \<le> length data"
  shows "(\<forall>k < n1 - 1.
            case (snd (training (fst (train_test_mackey_glass_npy data n1 n2)) (Suc k) r),
                  snd (training (fst (train_test_mackey_glass_npy data n1 n2)) (Suc (Suc k)) r)) of
              ((rk, reservoir_state, input_signal), (rk', reservoir_state', input_signal')) \<Rightarrow>
                input rk = Arr [data ! k] \<and>
                map_sum id deref (leaky_step rk) =
                  Inr (leaky_integration (leak rk) (weight_in rk) (weight rk) [data ! k] (deref rk)) \<and>
                deref rk' =
                  (leaky_integration (leak rk) (weight_in rk) (weight rk) [data ! k] (deref rk))
                    [0 := Fin 1] \<and>
                leak rk' = leak rk \<and> weight_in rk' = weight_in rk \<and> weight rk' = weight rk) \<and>
         (\<forall>r2. fitted linalg_inv (fst (train_test_mackey_glass_npy data n1 n2)) n1 r = Inr r2 \<and>
               n2 \<le> length data \<longrightarrow>
            (\<forall>j < n2 - n1.
               \<exists>rj rj' u.
                 rj = snd (testing (snd (train_test_mackey_glass_npy data n1 n2)) n1 (n1 + j) r2) \<and>
                 rj' = snd (testing (snd (train_test_mackey_glass_npy data n1 n2)) n1 (n1 + Suc j) r2) \<and>
                 input rj = Arr u \<and>
                 map_sum id deref (leaky_step rj) =
                   Inr (leaky_integration (leak rj) (weight_in rj) (weight rj) u (deref rj)) \<and>
                 deref rj' =
                   (leaky_integration (leak rj) (weight_in rj) (weight rj) u (deref rj))
                     [0 := Fin 1] \<and>
                 leak rj' = leak rj \<and> weight_in rj' = weight_in rj \<and> weight rj' = weight rj)) \<and>
         (\<forall>eigvals_abs dr dim_x dim_y dim_u r0.
            init eigvals_abs dr dim_x dim_y dim_u = Inr r0 \<longrightarrow> leak r0 = Fin (1 / 2))"
proof (intro conjI allI impI)
  fix k assume k: "k < n1 - 1"
  let ?dat = "take n1 data"
  define rk where "rk = fst (train_state r ?dat k)"
  define rk' where "rk' = fst (train_state r ?dat (Suc k))"
  have "training (fst (train_test_mackey_glass_npy data n1 n2)) (Suc k) r =
      (Inr (), train_state r ?dat k)"
    using k assms(1,4) training_prefix [of r "Suc k" ?dat] by (simp add: train_rows)
  then have s: "snd (training (fst (train_test_mackey_glass_npy data n1 n2)) (Suc k) r) =
      (rk, snd (train_state r ?dat k))" by (simp add: rk_def)
  have "training (fst (train_test_mackey_glass_npy data n1 n2)) (Suc (Suc k)) r =
      (Inr (), train_state r ?dat (Suc k))"
    using k assms(1,4) training_prefix [of r "Suc (Suc k)" ?dat] by (simp add: train_rows)
  then have s': "snd (training (fst (train_test_mackey_glass_npy data n1 n2)) (Suc (Suc k)) r) =
      (rk', snd (train_state r ?dat (Suc k)))" by (simp add: rk'_def)
  have ws: "well_shaped rk" unfolding rk_def by (rule well_shaped_train_state [OF assms(1)])
  have dk: "?dat ! k = data ! k" using k by simp
  have inp: "input rk = Arr [data ! k]" using k by (simp add: rk_def train_state_def)
  have flds: "leak rk = leak r" "weight_in rk = weight_in r" "weight rk = weight r"
    "leak rk' = leak r" "weight_in rk' = weight_in r" "weight rk' = weight r"
    by (simp_all add: rk_def rk'_def train_state_def del: train_x.simps)
  have nxt: "deref rk' =
      (leaky_integration (leak rk) (weight_in rk) (weight rk) [data ! k] (deref rk))[0 := Fin 1]"
    unfolding rk_def rk'_def flds [unfolded rk_def rk'_def]
    using train_state_step_deref [OF assms(1), of ?dat k] by (simp only: dk)
  from leaky_step_deref [OF ws inp] inp nxt flds
  show "case (snd (training (fst (train_test_mackey_glass_npy data n1 n2)) (Suc k) r),
              snd (training (fst (train_test_mackey_glass_npy data n1 n2)) (Suc (Suc k)) r)) of
      ((rk, reservoir_state, input_signal), (rk', reservoir_state', input_signal')) \<Rightarrow>
        input rk = Arr [data ! k] \<and>
        map_sum id deref (leaky_step rk) =
          Inr (leaky_integration (leak rk) (weight_in rk) (weight rk) [data ! k] (deref rk)) \<and>
        deref rk' =
          (leaky_integration (leak rk) (weight_in rk) (weight rk) [data ! k] (deref rk))
            [0 := Fin 1] \<and>
        leak rk' = leak rk \<and> weight_in rk' = weight_in rk \<and> weight rk' = weight rk"
    by (simp add: s s' split_def)
next
  fix r2 j
  assume f: "fitted linalg_inv (fst (train_test_mackey_glass_npy data n1 n2)) n1 r = Inr r2 \<and>
      n2 \<le> length data" and j: "j < n2 - n1"
  let ?tdat = "take (n2 - n1) (drop n1 data)"
  let ?test = "map (\<lambda>d. [d]) ?tdat"
  from fitted_context [OF assms(1,2,4)] f obtain W where
    c: "well_shaped r2" "weight_out r2 = Mat W" "length W = 1"
      "\<forall>row \<in> set W. length row = dim_N_x r2" by blast
  have lt: "length ?tdat = n2 - n1" using f j by auto
  then have ne: "?tdat \<noteq> []" using j by auto
  define rj where "rj = fst (test_state r2 W ?test j)"
  define rj' where "rj' = fst (test_state r2 W ?test (Suc j))"
  have pre: "testing ?test n1 (n1 + i) r2 =
      (case test_state r2 W ?test i of (r', result, signal) \<Rightarrow> (Inr (signal, result), r'))"
    if "i \<le> n2 - n1" for i
    using that lt by (intro testing_prefix [OF c ne]) simp
  have s: "snd (testing (snd (train_test_mackey_glass_npy data n1 n2)) n1 (n1 + j) r2) = rj"
    using pre [of j] j by (simp add: test_rows rj_def split_def)
  have s': "snd (testing (snd (train_test_mackey_glass_npy data n1 n2)) n1 (n1 + Suc j) r2) = rj'"
    using pre [of "Suc j"] j by (simp add: test_rows rj'_def split_def)
  have "?test ! 0 = [?tdat ! 0]" using ne by (simp add: nth_map)
  then have "length (?test ! 0) = 1" by simp
  note l = length_test_xu [OF c(1,3) this, of j] well_shaped_test_state [OF c(1,3) this, of j]
  obtain d where u: "snd (test_xu r2 W (?test ! 0) j) = [d]"
    using l(1) by (cases "snd (test_xu r2 W (?test ! 0) j)") auto
  have inp: "input rj = Arr [d]" using u by (simp add: rj_def test_state_def)
  have ws: "well_shaped rj" using l(2) by (simp add: rj_def)
  have flds: "leak rj = leak r2" "weight_in rj = weight_in r2" "weight rj = weight r2"
    "leak rj' = leak r2" "weight_in rj' = weight_in r2" "weight rj' = weight r2"
    by (simp_all add: rj_def rj'_def test_state_def del: test_xu.simps)
  have nxt: "deref rj' =
      (leaky_integration (leak rj) (weight_in rj) (weight rj) [d] (deref rj))[0 := Fin 1]"
    unfolding rj_def rj'_def flds [unfolded rj_def rj'_def]
    using test_state_step_deref [OF c(1), of W ?test j] by (simp only: u)
  from leaky_step_deref [OF ws inp] inp nxt flds s s'
  show "\<exists>rj rj' u.
      rj = snd (testing (snd (train_test_mackey_glass_npy data n1 n2)) n1 (n1 + j) r2) \<and>
      rj' = snd (testing (snd (train_test_mackey_glass_npy data n1 n2)) n1 (n1 + Suc j) r2) \<and>
      input rj = Arr u \<and>
      map_sum id deref (leaky_step rj) =
        Inr (leaky_integration (leak rj) (weight_in rj) (weight rj) u (deref rj)) \<and>
      deref rj' =
        (leaky_integration (leak rj) (weight_in rj) (weight rj) u (deref rj))[0 := Fin 1] \<and>
      leak rj' = leak rj \<and> weight_in rj' = weight_in rj \<and> weight rj' = weight rj"
    by simp
next
  fix eigvals_abs dr dim_x dim_y dim_u r0
  assume "init eigvals_abs dr dim_x dim_y dim_u = Inr r0"
  then show "leak r0 = Fin (1 / 2)" by (rule init_leak)
qed

theorem state_update_formula_witness:
  "(case (snd (training (fst (train_test_mackey_glass_npy series 4 6)) 2 small),
          snd (training (fst (train_test_mackey_glass_npy series 4 6)) 3 small)) of
      ((rk, reservoir_state, input_signal), (rk', reservoir_state', input_signal')) \<Rightarrow>
        input rk = Arr [Fin (1 / 5)] \<and>
        map_sum id deref (leaky_step rk) =
          Inr (leaky_integration (leak rk) (weight_in rk) (weight rk) [Fin (1 / 5)] (deref rk)) \<and>
        deref rk' =
          (leaky_integration (leak rk) (weight_in rk) (weight rk) [Fin (1 / 5)] (deref rk))
            [0 := Fin 1] \<and>
        leak rk' = leak rk \<and> weight_in rk' = weight_in rk \<and> weight rk' = weight rk) \<and>
   (\<exists>rj rj' u.
      rj = snd (testing (snd (train_test_mackey_glass_npy series 4 6)) 4 5 small_fitted) \<and>
      rj' = snd (testing (snd (train_test_mackey_glass_npy series 4 6)) 4 6 small_fitted) \<and>
      input rj = Arr u \<and>
      map_sum id deref (leaky_step rj) =
        Inr (leaky_integration (leak rj) (weight_in rj) (weight rj) u (deref rj)) \<and>
      deref rj' =
        (leaky_integration (leak rj) (weight_in rj) (weight rj) u (deref rj))[0 := Fin 1] \<and>
      leak rj' = leak rj \<and> weight_in rj' = weight_in rj \<and> weight rj' = weight rj) \<and>
   init eigvals_abs_1 small_draws 1 1 1 = Inr (small\<lparr>warmup := 100\<rparr>) \<and>
   leak (small\<lparr>warmup := 100\<rparr>) = Fin (1 / 2)"
proof -
  note t = state_update_formula [OF well_shaped_small keeps_shape_inv_small series_facts(1,2),
      of 6]
  note tr = conjunct1 [OF t, rule_format]
  note te = conjunct1 [OF conjunct2 [OF t], rule_format]
  note ti = conjunct2 [OF conjunct2 [OF t], rule_format]
  have n: "Suc 1 = 2" "Suc 2 = 3" "4 + 1 = (5::nat)" "4 + 2 = (6::nat)"
    "series ! 1 = Fin (1 / 5)"
    by (simp_all add: series_def)
  have "(1::nat) < 4 - 1" by simp
  from tr [OF this] have a:
    "case (snd (training (fst (train_test_mackey_glass_npy series 4 6)) 2 small),
           snd (training (fst (train_test_mackey_glass_npy series 4 6)) 3 small)) of
       ((rk, reservoir_state, input_signal), (rk', reservoir_state', input_signal')) \<Rightarrow>
         input rk = Arr [Fin (1 / 5)] \<and>
         map_sum id deref (leaky_step rk) =
           Inr (leaky_integration (leak rk) (weight_in rk) (weight rk) [Fin (1 / 5)] (deref rk)) \<and>
         deref rk' =
           (leaky_integration (leak rk) (weight_in rk) (weight rk) [Fin (1 / 5)] (deref rk))
             [0 := Fin 1] \<and>
         leak rk' = leak rk \<and> weight_in rk' = weight_in rk \<and> weight rk' = weight rk"
    by (simp only: n)
  have "(1::nat) < 6 - 4" by simp
  from te [OF conjI [OF fitted_small series_facts(3)] this] have b:
    "\<exists>rj rj' u.
       rj = snd (testing (snd (train_test_mackey_glass_npy series 4 6)) 4 5 small_fitted) \<and>
       rj' = snd (testing (snd (train_test_mackey_glass_npy series 4 6)) 4 6 small_fitted) \<and>
       input rj = Arr u \<and>
       map_sum id deref (leaky_step rj) =
         Inr (leaky_integration (leak rj) (weight_in rj) (weight rj) u (deref rj)) \<and>
       deref rj' =
         (leaky_integration (leak rj) (weight_in rj) (weight rj) u (deref rj))[0 := Fin 1] \<and>
       leak rj' = leak rj \<and> weight_in rj' = weight_in rj \<and> weight rj' = weight rj"
    by (simp only: n)
  from a b init_small ti [OF init_small] show ?thesis by (intro conjI)
qed


text \<open>
  C6. After every step of the first loop and of the second the first component of the
  internal state is 1. The write comes before the use: the reference the first loop
  records in a step names the array that holds the 1, every recorded array still has it
  when the loop has ended, and the output of a step of the second loop is the readout of
  the state that holds the 1.
\<close>

theorem bias_unit_before_use:
  assumes "well_shaped r" and "keeps_shape linalg_inv" and "0 < n1" and "n1 \<le> length data"
  shows "(\<forall>k. 0 < k \<and> k < n1 \<longrightarrow>
            (case snd (training (fst (train_test_mackey_glass_npy data n1 n2)) (Suc k) r) of
               (rk, reservoir_state, input_signal) \<Rightarrow>
                 deref rk ! 0 = Fin 1 \<and>
                 (warmup r < k \<longrightarrow> reservoir_state \<noteq> [] \<and> last reservoir_state = internal rk))) \<and>
         (case training (fst (train_test_mackey_glass_npy data n1 n2)) n1 r of
            (out, r1, reservoir_state, input_signal) \<Rightarrow>
              \<forall>a \<in> set reservoir_state. store r1 ! a ! 0 = Fin 1) \<and>
         (\<forall>r2. fitted linalg_inv (fst (train_test_mackey_glass_npy data n1 n2)) n1 r = Inr r2 \<and>
               n2 \<le> length data \<longrightarrow>
            (\<forall>j. 0 < j \<and> j \<le> n2 - n1 \<longrightarrow>
               (\<exists>rj. rj = snd (testing (snd (train_test_mackey_glass_npy data n1 n2)) n1 (n1 + j) r2) \<and>
                  deref rj ! 0 = Fin 1 \<and> forward_out rj = Inr (output rj))))"
proof (intro conjI allI impI)
  fix k assume k: "0 < k \<and> k < n1"
  let ?dat = "take n1 data"
  obtain k' where k': "k = Suc k'" using k by (cases k) auto
  have "training (fst (train_test_mackey_glass_npy data n1 n2)) (Suc k) r =
      (Inr (), train_state r ?dat k)"
    using k assms(1,4) training_prefix [of r "Suc k" ?dat] by (simp add: train_rows)
  moreover have "deref (fst (train_state r ?dat k)) ! 0 = Fin 1"
    using deref_train_state [OF assms(1), of ?dat k] train_x_bias [OF assms(1), of ?dat k']
    by (simp only: k')
  moreover have "warmup r < k \<longrightarrow> fst (snd (train_state r ?dat k)) \<noteq> [] \<and>
      last (fst (snd (train_state r ?dat k))) = internal (fst (train_state r ?dat k))"
    by (auto simp add: train_state_def k' last_map simp del: train_x.simps)
  ultimately
  show "case snd (training (fst (train_test_mackey_glass_npy data n1 n2)) (Suc k) r) of
      (rk, reservoir_state, input_signal) \<Rightarrow>
        deref rk ! 0 = Fin 1 \<and>
        (warmup r < k \<longrightarrow> reservoir_state \<noteq> [] \<and> last reservoir_state = internal rk)"
    by (simp add: split_def)
next
  let ?dat = "take n1 data"
  have "training (fst (train_test_mackey_glass_npy data n1 n2)) n1 r =
      (Inr (), train_state r ?dat (n1 - 1))"
    using assms(1,3,4) by (simp add: train_rows training_prefix)
  then show "case training (fst (train_test_mackey_glass_npy data n1 n2)) n1 r of
      (out, r1, reservoir_state, input_signal) \<Rightarrow>
        \<forall>a \<in> set reservoir_state. store r1 ! a ! 0 = Fin 1"
    using assms(1)
    by (auto simp add: train_state_def nth_append train_x_bias simp del: train_x.simps)
next
  fix r2 j
  assume f: "fitted linalg_inv (fst (train_test_mackey_glass_npy data n1 n2)) n1 r = Inr r2 \<and>
      n2 \<le> length data" and j: "0 < j \<and> j \<le> n2 - n1"
  let ?tdat = "take (n2 - n1) (drop n1 data)"
  let ?test = "map (\<lambda>d. [d]) ?tdat"
  obtain j' where j': "j = Suc j'" using j by (cases j) auto
  from fitted_context [OF assms(1,2,4)] f obtain W where
    c: "well_shaped r2" "weight_out r2 = Mat W" "length W = 1"
      "\<forall>row \<in> set W. length row = dim_N_x r2" by blast
  have lt: "length ?tdat = n2 - n1" using f j by auto
  then have ne: "?tdat \<noteq> []" using j by auto
  define rj where "rj = fst (test_state r2 W ?test j)"
  have "testing ?test n1 (n1 + j) r2 =
      (case test_state r2 W ?test j of (r', result, signal) \<Rightarrow> (Inr (signal, result), r'))"
    using j lt by (intro testing_prefix [OF c ne]) simp
  then have s: "snd (testing (snd (train_test_mackey_glass_npy data n1 n2)) n1 (n1 + j) r2) = rj"
    by (simp add: test_rows rj_def split_def)
  have "deref rj = fst (test_xu r2 W [?tdat ! 0] (Suc j'))"
    unfolding rj_def j' by (rule test_state_facts(5) [OF c ne])
  then have b: "deref rj ! 0 = Fin 1"
    using test_xu_bias [OF c(1,3), of "[?tdat ! 0]" j'] by simp
  have "forward_out rj = Inr (output rj)"
    unfolding rj_def j' using test_state_facts(3,4) [OF c ne, of j'] by simp
  with b s
  show "\<exists>rj. rj = snd (testing (snd (train_test_mackey_glass_npy data n1 n2)) n1 (n1 + j) r2) \<and>
      deref rj ! 0 = Fin 1 \<and> forward_out rj = Inr (output rj)"
    by simp
qed


theorem bias_unit_before_use_witness:
  "(case snd (training (fst (train_test_mackey_glass_npy series 4 6)) 3 small) of
      (rk, reservoir_state, input_signal) \<Rightarrow>
        deref rk ! 0 = Fin 1 \<and> (reservoir_state \<noteq> [] \<and> last reservoir_state = internal rk)) \<and>
   (\<exists>rj. rj = snd (testing (snd (train_test_mackey_glass_npy series 4 6)) 4 5 small_fitted) \<and>
      deref rj ! 0 = Fin 1 \<and> forward_out rj = Inr (output rj))"
proof -
  note t = bias_unit_before_use [OF well_shaped_small keeps_shape_inv_small series_facts(1,2),
      of 6]
  note tr = conjunct1 [OF t, rule_format]
  note te = conjunct2 [OF conjunct2 [OF t], rule_format]
  have n: "Suc 2 = 3" "4 + 1 = (5::nat)" "(warmup small < 2) = True"
    by (simp_all add: small_def)
  have "(0::nat) < 2 \<and> (2::nat) < 4" by simp
  from tr [OF this] have a:
    "case snd (training (fst (train_test_mackey_glass_npy series 4 6)) 3 small) of
       (rk, reservoir_state, input_signal) \<Rightarrow>
         deref rk ! 0 = Fin 1 \<and> (reservoir_state \<noteq> [] \<and> last reservoir_state = internal rk)"
    by (simp only: n simp_thms)
  have "(0::nat) < 1 \<and> (1::nat) \<le> 6 - 4" by simp
  from te [OF conjI [OF fitted_small series_facts(3)] this] have b:
    "\<exists>rj. rj = snd (testing (snd (train_test_mackey_glass_npy series 4 6)) 4 5 small_fitted) \<and>
       deref rj ! 0 = Fin 1 \<and> forward_out rj = Inr (output rj)"
    by (simp only: n)
  from a b show ?thesis by (intro conjI)
qed



section \<open>The edges of the driver\<close>

text \<open>
  C7. With \<open>n2 \<le> n1\<close> the call never returns a pair of sequences: the test series is
  empty, and line 219 reads its first row before the second loop starts. When lines 199
  to 215 complete, the call raises IndexError and leaves the object with the readout
  already replaced. The specification expects two empty sequences and no error.
\<close>

theorem empty_test_phase_raises:
  assumes "n2 \<le> n1"
  shows "(\<exists>e. fst (training_testing linalg_inv data n1 n2 r) = Inl e) \<and>
    (\<forall>r2. fitted linalg_inv (fst (train_test_mackey_glass_npy data n1 n2)) n1 r = Inr r2 \<longrightarrow>
       training_testing linalg_inv data n1 n2 r = (Inl IndexError, r2))"
proof -
  have e: "snd (train_test_mackey_glass_npy data n1 n2) = []"
    using assms by (simp add: test_rows)
  have "\<exists>e. fst (training_testing linalg_inv data n1 n2 r) = Inl e"
    using e by (auto simp add: training_testing_def testing_no_rows split: prod.splits sum.splits)
  moreover have "training_testing linalg_inv data n1 n2 r = (Inl IndexError, r2)"
    if "fitted linalg_inv (fst (train_test_mackey_glass_npy data n1 n2)) n1 r = Inr r2" for r2
    using training_testing_fitted [OF that] e by (simp add: testing_no_rows)
  ultimately show ?thesis by blast
qed

theorem empty_test_phase_raises_witness:
  "training_testing inv_small series 4 4 small = (Inl IndexError, small_fitted)"
proof -
  have f: "fitted inv_small (fst (train_test_mackey_glass_npy series 4 4)) 4 small = Inr small_fitted"
    using fitted_small by (simp only: train_rows)
  have "(4::nat) \<le> 4" by simp
  from conjunct2 [OF empty_test_phase_raises [OF this], rule_format, OF f] show ?thesis .
qed


text \<open>
  C8, as the code has it. With \<open>1 \<le> n1 \<le> warmup\<close>, on a well-shaped reservoir and a series
  of at least \<open>n1\<close> samples, the first loop ends normally with both traces empty. Nothing
  checks for that: \<^verbatim>\<open>update\<close> runs on the empty traces, has \<open>\<epsilon> I\<close> inverted, and its last
  matrix product raises ValueError (or the inversion raises). The call ends with that
  exception and \<^verbatim>\<open>weight_out\<close> is as it was before the call.
\<close>

theorem fit_on_empty_trace:
  assumes "well_shaped r" and "0 < n1" and "n1 \<le> length data" and "n1 \<le> warmup r"
  shows "(case training (fst (train_test_mackey_glass_npy data n1 n2)) n1 r of
            (out, r1, reservoir_state, input_signal) \<Rightarrow>
              out = Inr () \<and> reservoir_state = [] \<and> input_signal = []) \<and>
         fst (training_testing linalg_inv data n1 n2 r) =
           (case linalg_inv (map (scale (Fin (1 / 10 ^ 8))) (np_eye (dim_N_x r))) of
              Inl e \<Rightarrow> Inl e | Inr gi \<Rightarrow> Inl ValueError) \<and>
         update linalg_inv (dim_N_x r) [] [] =
           (case linalg_inv (map (scale (Fin (1 / 10 ^ 8))) (np_eye (dim_N_x r))) of
              Inl e \<Rightarrow> Inl e | Inr gi \<Rightarrow> Inl ValueError) \<and>
         weight_out (snd (training_testing linalg_inv data n1 n2 r)) = weight_out r"
proof -
  have s: "n1 \<le> Suc (warmup r)" using assms(4) by simp
  note t = training_testing_short [OF assms(1-3) s]
  show ?thesis
    by (simp add: t update_empty train_state_def)
qed


theorem fit_on_empty_trace_witness:
  "fst (training_testing inv_small (replicate 60 (Fin (1 / 2))) 50 60 (small\<lparr>warmup := 100\<rparr>)) =
     Inl ValueError \<and>
   weight_out (snd (training_testing inv_small (replicate 60 (Fin (1 / 2))) 50 60
     (small\<lparr>warmup := 100\<rparr>))) = Mat [[Fin (1 / 5)]]"
proof -
  note t = fit_on_empty_trace [OF short_series_facts(1,2,3,4),
      where linalg_inv = inv_small and ?n2.0 = 60]
  note a = conjunct1 [OF conjunct2 [OF t]]
  note b = conjunct2 [OF conjunct2 [OF conjunct2 [OF t]]]
  from a b show ?thesis
    by (simp only: short_series_facts(6,7) inv_small_eps sum.case simp_thms)
qed


text \<open>
  C8 at the scenario of the specification, \<open>warmup = 100\<close> and \<open>n1 = 50\<close>: the loop completes,
  the regression is attempted, and the exception is the ValueError of numpy's matrix
  product, not an error that says the training data are insufficient.
\<close>

theorem insufficient_training_data_counterexample:
  "fst (training (fst (train_test_mackey_glass_npy (replicate 60 (Fin (1 / 2))) 50 60)) 50
          (small\<lparr>warmup := 100\<rparr>)) = Inr () \<and>
   update inv_small 1 [] [] = Inl ValueError \<and>
   fst (training_testing inv_small (replicate 60 (Fin (1 / 2))) 50 60 (small\<lparr>warmup := 100\<rparr>)) =
     Inl ValueError"
proof -
  note t = training_testing_short(1) [OF short_series_facts(1,2,3,5), where ?n2.0 = 60]
    training_testing_short(2) [OF short_series_facts(1,2,3,5),
      where linalg_inv = inv_small and ?n2.0 = 60]
  have a: "fst (training (fst (train_test_mackey_glass_npy (replicate 60 (Fin (1 / 2))) 50 60)) 50
          (small\<lparr>warmup := 100\<rparr>)) = Inr ()"
    by (simp only: t(1) fst_conv)
  have b: "update inv_small 1 [] [] = Inl ValueError"
    by (simp only: update_empty inv_small_eps sum.case)
  have c: "fst (training_testing inv_small (replicate 60 (Fin (1 / 2))) 50 60 (small\<lparr>warmup := 100\<rparr>)) =
     Inl ValueError"
    by (simp only: t(2) fst_conv short_series_facts(6) inv_small_eps sum.case)
  from a b c show ?thesis by (intro conjI)
qed


section \<open>The spectral radius\<close>




section \<open>A degenerate recurrent matrix\<close>

text \<open>
  C9, as the code has it. When the largest eigenvalue magnitude of the masked draw is
  zero, \<^verbatim>\<open>__init__\<close> does not fail: nothing checks the divisor, the quotient
  \<^verbatim>\<open>radius / 0\<close> is the float infinity, and the object is returned with a recurrent
  matrix that has no finite entry.
\<close>

theorem degenerate_matrix_gives_non_finite_weights:
  assumes "dim_y = dim_u" and "np_max (eigvals_abs (masked_weight dr)) = Inr (Fin 0)"
  shows "\<exists>r. init eigvals_abs dr dim_x dim_y dim_u = Inr r \<and>
    weight r = map (map (\<lambda>a. a * PInf)) (masked_weight dr) \<and>
    (\<forall>row \<in> set (weight r). \<forall>a \<in> set row. \<not> is_finite a)"
  using assms by (auto simp add: init_def times_PInf_not_finite)

theorem degenerate_matrix_gives_non_finite_weights_witness:
  "\<exists>r. init eigvals_abs_1 zero_draws 1 1 1 = Inr r \<and> weight r = [[NaN]]"
proof -
  have h: "np_max (eigvals_abs_1 (masked_weight zero_draws)) = Inr (Fin 0)"
    by (simp add: masked_weight_def eigvals_abs_1_def zero_draws_def small_draws_def)
  have "map (map (\<lambda>a. a * PInf)) (masked_weight zero_draws) = [[NaN]]"
    by (simp add: masked_weight_def zero_draws_def small_draws_def)
  with degenerate_matrix_gives_non_finite_weights [where dim_y = 1 and dim_u = 1 and dim_x = 1
      and eigvals_abs = eigvals_abs_1 and dr = zero_draws, OF refl h]
  show ?thesis by auto
qed


text \<open>
  C9 at the zero matrix: the largest eigenvalue magnitude is zero, and \<^verbatim>\<open>__init__\<close>
  returns an object whose recurrent matrix is NaN.
\<close>

theorem degenerate_matrix_counterexample:
  "np_max (eigvals_abs_1 (masked_weight zero_draws)) = Inr (Fin 0) \<and>
   init eigvals_abs_1 zero_draws 1 1 1 = Inr (small\<lparr>warmup := 100, weight := [[NaN]]\<rparr>)"
  by (simp add: init_def masked_weight_def eigvals_abs_1_def zero_draws_def small_draws_def small_def)


end
